theory Spec2Isabelle
  imports Complex_Main "HOL-Library.Multiset"
begin

section \<open>q-explore: unit conversion, history store and replay\<close>

text \<open>
  A shallow embedding of the browser client of q-explore (\<^verbatim>\<open>static/js/main.js\<close>,
  \<^verbatim>\<open>generate.js\<close>, \<^verbatim>\<open>history.js\<close>, \<^verbatim>\<open>settings.js\<close>, \<^verbatim>\<open>map.js\<close>).

  JavaScript numbers are modelled as exact rationals: products and roundings are the
  mathematical ones, without the relative error of IEEE doubles. A text control holding
  a number is modelled by the number that \<^verbatim>\<open>parseFloat\<close> reads back from it, \<open>None\<close>
  standing for \<^verbatim>\<open>NaN\<close>.
\<close>

subsection \<open>Rounding\<close>

text \<open>\<^verbatim>\<open>Math.round(x)\<close>: the nearest integer, a tie going up.\<close>

definition Math_round :: "rat \<Rightarrow> int" where
  "Math_round x = \<lfloor>x + 1 / 2\<rfloor>"

text \<open>
  \<^verbatim>\<open>x.toFixed(d)\<close>, read back as a number: the multiple of \<open>10\<^sup>-\<^sup>d\<close> nearest to \<open>x\<close>, a tie
  going to the larger magnitude (the sign is split off first). The code rounds the double
  nearest to the product: at a decimal tie of the exact product its result can differ from
  this one by one step of the last place.
\<close>

definition toFixed :: "nat \<Rightarrow> rat \<Rightarrow> rat" where
  "toFixed d x =
     (if x < 0 then - (of_int \<lfloor>(- x) * 10 ^ d + 1 / 2\<rfloor> / 10 ^ d)
      else of_int \<lfloor>x * 10 ^ d + 1 / 2\<rfloor> / 10 ^ d)"

subsection \<open>Unit system (main.js)\<close>

text \<open>\<^verbatim>\<open>const MILES_PER_METER = 0.000621371; const METERS_PER_MILE = 1609.34;\<close>\<close>

definition MILES_PER_METER :: rat where
  "MILES_PER_METER = 621371 / 1000000000"

definition METERS_PER_MILE :: rat where
  "METERS_PER_MILE = 160934 / 100"

text \<open>One row of \<^verbatim>\<open>UNIT_CONVERSIONS\<close>.\<close>

record conversion =
  fromMeters :: rat
  toMeters :: rat
  step :: rat
  decimals :: nat

text \<open>
  \<^verbatim>\<open>
  const UNIT_CONVERSIONS = {
      meters: { fromMeters: 1, toMeters: 1, step: 100, decimals: 0 },
      miles: { fromMeters: MILES_PER_METER, toMeters: METERS_PER_MILE, step: 0.1, decimals: 1 },
      feet: { fromMeters: 3.28084, toMeters: 0.3048, step: 100, decimals: 0 },
      kilometers: { fromMeters: 0.001, toMeters: 1000, step: 0.1, decimals: 1 },
  };
  \<close>
  A key that is not in the table reads as \<^verbatim>\<open>undefined\<close>: \<open>None\<close>.
\<close>

definition UNIT_CONVERSIONS :: "string \<Rightarrow> conversion option" where
  "UNIT_CONVERSIONS u =
     (if u = ''meters'' then
        Some \<lparr>fromMeters = 1, toMeters = 1, step = 100, decimals = 0\<rparr>
      else if u = ''miles'' then
        Some \<lparr>fromMeters = MILES_PER_METER, toMeters = METERS_PER_MILE,
              step = 1 / 10, decimals = 1\<rparr>
      else if u = ''feet'' then
        Some \<lparr>fromMeters = 328084 / 100000, toMeters = 3048 / 10000,
              step = 100, decimals = 0\<rparr>
      else if u = ''kilometers'' then
        Some \<lparr>fromMeters = 1 / 1000, toMeters = 1000, step = 1 / 10, decimals = 1\<rparr>
      else None)"

text \<open>The unit identifiers of the table, and the two unit systems of \<^verbatim>\<open>state.units\<close>.\<close>

definition unit_names :: "string list" where
  "unit_names = [''meters'', ''miles'', ''feet'', ''kilometers'']"

definition unit_systems :: "string list" where
  "unit_systems = [''metric'', ''imperial'']"

text \<open>
  Canonical (metres) to display unit, as \<^verbatim>\<open>loadSettings\<close> and \<^verbatim>\<open>updateAllUnits\<close> do it:
  \<^verbatim>\<open>
  const displayValue = radiusMeters * conversion.fromMeters;
  const formattedValue = conversion.decimals > 0
      ? displayValue.toFixed(conversion.decimals)
      : Math.round(displayValue);
  \<close>
\<close>

definition fromCanonical :: "conversion \<Rightarrow> rat \<Rightarrow> rat" where
  "fromCanonical c meters =
     (let displayValue = meters * fromMeters c
      in if decimals c > 0 then toFixed (decimals c) displayValue
         else of_int (Math_round displayValue))"

text \<open>
  Display unit to canonical, as \<^verbatim>\<open>updateAllUnits\<close> does it:
  \<^verbatim>\<open>const valueInMeters = currentValue * UNIT_CONVERSIONS[fromUnitType].toMeters;\<close>
\<close>

definition toCanonical :: "conversion \<Rightarrow> rat \<Rightarrow> rat" where
  "toCanonical c v = v * toMeters c"

text \<open>
  The rounding tolerance of a unit: half a unit in the last displayed decimal place,
  expressed in metres.
\<close>

definition rounding_tolerance :: "conversion \<Rightarrow> rat" where
  "rounding_tolerance c = toMeters c / (2 * 10 ^ decimals c)"

text \<open>The representative canonical values of the round-trip property.\<close>

definition representative_values :: "rat list" where
  "representative_values = [0, 1, 3000, 1609340]"

text \<open>
  \<^verbatim>\<open>
  function getRadiusInMeters() {
      const displayValue = parseFloat(elements.radiusInput.value) || 3000;
      if (state.units === 'imperial') {
          return displayValue * METERS_PER_MILE;
      }
      return displayValue;
  }
  \<close>
  The first argument is \<^verbatim>\<open>state.units\<close>, the second what \<^verbatim>\<open>parseFloat\<close> reads from the
  radius control. \<^verbatim>\<open>NaN\<close> and \<open>0\<close> are falsy and give 3000.
\<close>

definition getRadiusInMeters :: "string \<Rightarrow> rat option \<Rightarrow> rat" where
  "getRadiusInMeters units radiusInput =
     (let displayValue = (case radiusInput of
                            None \<Rightarrow> 3000
                          | Some v \<Rightarrow> if v = 0 then 3000 else v)
      in if units = ''imperial'' then displayValue * METERS_PER_MILE
         else displayValue)"

text \<open>
  \<^verbatim>\<open>
  function formatRadius(meters) {
      if (state.units === 'imperial') {
          const miles = (meters * MILES_PER_METER).toFixed(1);
          return `${miles} mi`;
      }
      return `${Math.round(meters).toLocaleString()}m`;
  }
  \<close>
  The result is the displayed number with its suffix; the grouping of digits by
  \<^verbatim>\<open>toLocaleString\<close> is left out.
\<close>

definition formatRadius :: "string \<Rightarrow> rat \<Rightarrow> rat \<times> string" where
  "formatRadius units meters =
     (if units = ''imperial'' then (toFixed 1 (meters * MILES_PER_METER), '' mi'')
      else (of_int (Math_round meters), ''m''))"

subsection \<open>History records (generate.js, history.js)\<close>

text \<open>
  The request of a generation, as \<^verbatim>\<open>handleGenerate\<close> sends it: the radius is in metres
  (\<^verbatim>\<open>radius: getRadiusInMeters()\<close>). \<^verbatim>\<open>mode\<close> may be missing.
\<close>

record gen_request =
  lat :: rat
  lng :: rat
  radius :: rat
  mode :: "string option"
  backend :: string

text \<open>\<^verbatim>\<open>winner.result\<close>: the coordinate and the optional score.\<close>

record winner =
  coords_lat :: rat
  coords_lng :: rat
  z_score :: "rat option"

text \<open>
  A stored history entry \<^verbatim>\<open>{id, timestamp, request, winners}\<close>. A property that is missing
  reads as \<^verbatim>\<open>undefined\<close>: \<open>None\<close>. The timestamp is kept as the time value (milliseconds)
  of \<^verbatim>\<open>new Date(entry.timestamp)\<close>, \<open>None\<close> when that is \<^verbatim>\<open>NaN\<close> (a missing or unparseable
  timestamp).
\<close>

record entry =
  entry_id :: "string option"
  timestamp :: "int option"
  request :: "gen_request option"
  winners :: "(string \<times> winner) list"

text \<open>
  A generation response \<^verbatim>\<open>{id, request, winners, circles, metadata: {timestamp}}\<close>, from
  \<^verbatim>\<open>/api/generate\<close>, from \<^verbatim>\<open>/api/history\<close> (\<^verbatim>\<open>entry.response\<close>) or rebuilt by the replay.
  A circle is kept as its id and its centre.
\<close>

record response =
  resp_id :: "string option"
  resp_request :: "gen_request option"
  resp_winners :: "(string \<times> winner) list"
  circles :: "(string \<times> rat \<times> rat) list"
  metadata_timestamp :: "int option"

text \<open>
  The object literal that \<^verbatim>\<open>saveToHistory\<close> and \<^verbatim>\<open>syncHistoryFromServer\<close> build from a
  response:
  \<^verbatim>\<open>{ id: result.id, timestamp: result.metadata.timestamp, request: result.request,
     winners: result.winners }\<close>
\<close>

definition history_entry :: "response \<Rightarrow> entry" where
  "history_entry result =
     \<lparr>entry_id = resp_id result, timestamp = metadata_timestamp result,
      request = resp_request result, winners = resp_winners result\<rparr>"

subsection \<open>Sorting\<close>

text \<open>
  The comparator of both sorts,
  \<^verbatim>\<open>(a, b) => new Date(b.timestamp) - new Date(a.timestamp)\<close>; \<open>None\<close> is \<^verbatim>\<open>NaN\<close>.
\<close>

definition by_timestamp_desc :: "entry \<Rightarrow> entry \<Rightarrow> int option" where
  "by_timestamp_desc a b =
     (case timestamp b of
        None \<Rightarrow> None
      | Some tb \<Rightarrow> (case timestamp a of None \<Rightarrow> None | Some ta \<Rightarrow> Some (tb - ta)))"

text \<open>
  \<^verbatim>\<open>Array.prototype.sort(cmp)\<close>. \<open>x\<close> is placed after \<open>y\<close> when \<open>cmp x y > 0\<close>; a result of
  \<^verbatim>\<open>NaN\<close> counts as 0. The sort is stable, so with a consistent comparator its result is
  the one of this insertion sort. (With an inconsistent comparator, as for a record
  without a valid timestamp, ECMAScript leaves the order to the implementation; the model
  then still returns a permutation, in an order that need not be the engine's.)
\<close>

definition sorts_after :: "int option \<Rightarrow> bool" where
  "sorts_after v = (case v of None \<Rightarrow> False | Some d \<Rightarrow> d > 0)"

fun insert_by :: "('a \<Rightarrow> 'a \<Rightarrow> int option) \<Rightarrow> 'a \<Rightarrow> 'a list \<Rightarrow> 'a list" where
  "insert_by cmp x [] = [x]"
| "insert_by cmp x (y # ys) =
     (if sorts_after (cmp x y) then y # insert_by cmp x ys else x # y # ys)"

definition Array_sort :: "('a \<Rightarrow> 'a \<Rightarrow> int option) \<Rightarrow> 'a list \<Rightarrow> 'a list" where
  "Array_sort cmp xs = foldr (insert_by cmp) xs []"

subsection \<open>The history store, on the decoded array\<close>

text \<open>
  The operations below work on the array that
  \<^verbatim>\<open>JSON.parse(localStorage.getItem('q-explore-history') || '[]')\<close> returns; what they
  return is the array handed to \<^verbatim>\<open>localStorage.setItem\<close>. The versions that read and
  write the slot itself follow in the next subsection.

  \<^verbatim>\<open>
  function saveToHistory(result) {
      const history = JSON.parse(localStorage.getItem('q-explore-history') || '[]');
      // Add to beginning
      history.unshift({ id: result.id, timestamp: result.metadata.timestamp,
                        request: result.request, winners: result.winners });
      // Keep only last 100 entries
      if (history.length > 100) {
          history.pop();
      }
      localStorage.setItem('q-explore-history', JSON.stringify(history));
      ...
  }
  \<close>
  The function returns nothing.
\<close>

definition saveToHistory :: "entry list \<Rightarrow> response \<Rightarrow> entry list" where
  "saveToHistory history result =
     (let unshifted = history_entry result # history
      in if length unshifted > 100 then butlast unshifted else unshifted)"

text \<open>
  \<^verbatim>\<open>const filtered = history.filter(entry => entry.id !== id);\<close>
\<close>

definition deleteHistoryEntry :: "entry list \<Rightarrow> string option \<Rightarrow> entry list" where
  "deleteHistoryEntry history i = filter (\<lambda>e. entry_id e \<noteq> i) history"

text \<open>
  \<^verbatim>\<open>
  const localHistory = JSON.parse(localStorage.getItem('q-explore-history') || '[]');
  const localIds = new Set(localHistory.map(e => e.id));
  data.entries.forEach(entry => {
      if (!localIds.has(entry.response.id)) {
          localHistory.push({ id: entry.response.id, ... });
      }
  });
  localHistory.sort((a, b) => new Date(b.timestamp) - new Date(a.timestamp));
  if (localHistory.length > 100) {
      localHistory.length = 100;
  }
  localStorage.setItem('q-explore-history', JSON.stringify(localHistory));
  \<close>
  \<open>localIds\<close> is computed once, before the loop. The second argument is the list of the
  \<^verbatim>\<open>entry.response\<close> of \<^verbatim>\<open>data.entries\<close>.
\<close>

definition push_remote :: "string option list \<Rightarrow> entry list \<Rightarrow> response \<Rightarrow> entry list" where
  "push_remote localIds localHistory r =
     (if resp_id r \<notin> set localIds then localHistory @ [history_entry r] else localHistory)"

definition syncHistoryFromServer :: "entry list \<Rightarrow> response list \<Rightarrow> entry list" where
  "syncHistoryFromServer localHistory entries =
     (let localIds = map entry_id localHistory;
          pushed = foldl (push_remote localIds) localHistory entries;
          ordered = Array_sort by_timestamp_desc pushed
      in if length ordered > 100 then take 100 ordered else ordered)"

text \<open>
  The merge of \<^verbatim>\<open>importHistory\<close> (settings.js), once the file has been parsed to an array:
  \<^verbatim>\<open>
  const existingIds = new Set(existing.map(e => e.id));
  imported.forEach(entry => {
      if (entry.id && !existingIds.has(entry.id)) {
          existing.push(entry);
      }
  });
  existing.sort((a, b) => new Date(b.timestamp) - new Date(a.timestamp));
  if (existing.length > 100) {
      existing.length = 100;
  }
  localStorage.setItem('q-explore-history', JSON.stringify(existing));
  updateHistoryDisplay();
  alert(`Imported ${imported.length} entries`);
  \<close>
  A missing id and the empty string are falsy. The result is the array stored and the number
  shown in the alert.
\<close>

definition truthy_id :: "string option \<Rightarrow> bool" where
  "truthy_id i = (case i of None \<Rightarrow> False | Some s \<Rightarrow> s \<noteq> [])"

definition push_imported :: "string option list \<Rightarrow> entry list \<Rightarrow> entry \<Rightarrow> entry list" where
  "push_imported existingIds existing e =
     (if truthy_id (entry_id e) \<and> entry_id e \<notin> set existingIds then existing @ [e]
      else existing)"

definition importHistory :: "entry list \<Rightarrow> entry list \<Rightarrow> entry list \<times> nat" where
  "importHistory existing imported =
     (let existingIds = map entry_id existing;
          pushed = foldl (push_imported existingIds) existing imported;
          ordered = Array_sort by_timestamp_desc pushed
      in (if length ordered > 100 then take 100 ordered else ordered, length imported))"

subsection \<open>The persisted slot\<close>

text \<open>
  What a JavaScript exception of the modelled code can be: the \<^verbatim>\<open>SyntaxError\<close> of
  \<^verbatim>\<open>JSON.parse\<close>, the \<^verbatim>\<open>TypeError\<close> of a property read on \<^verbatim>\<open>undefined\<close> or of a call
  of a missing method, and \<^verbatim>\<open>new Error('Invalid format: expected array')\<close>.
\<close>

datatype error = SyntaxError | TypeError | InvalidFormat

text \<open>
  A decoded JSON value is an array of entry objects or some other value. A text is
  classified by what \<^verbatim>\<open>JSON.parse\<close> does with it: the empty string and any other text
  that is not JSON (\<^verbatim>\<open>JSON.parse\<close> throws), or the serialization of a value.
  \<^verbatim>\<open>localStorage.getItem\<close> returns a text, or \<^verbatim>\<open>null\<close> when the key is absent.
\<close>

datatype json = JArray "entry list" | JOther

datatype blob = EmptyText | Unreadable | Encoded json

type_synonym slot = "blob option"

definition JSON_parse :: "blob \<Rightarrow> error + json" where
  "JSON_parse b = (case b of Encoded v \<Rightarrow> Inr v | _ \<Rightarrow> Inl SyntaxError)"

definition JSON_stringify :: "json \<Rightarrow> blob" where
  "JSON_stringify v = Encoded v"

text \<open>
  \<^verbatim>\<open>JSON.parse(localStorage.getItem('q-explore-history') || '[]')\<close>, followed by the first
  array method the caller applies (\<^verbatim>\<open>unshift\<close>, \<^verbatim>\<open>filter\<close>, \<^verbatim>\<open>map\<close>), which a value
  that is not an array does not have. \<^verbatim>\<open>null\<close> and the empty string are falsy.
\<close>

definition readHistory :: "slot \<Rightarrow> error + entry list" where
  "readHistory s =
     (let stored = (case s of None \<Rightarrow> Encoded (JArray [])
                            | Some EmptyText \<Rightarrow> Encoded (JArray [])
                            | Some b \<Rightarrow> b)
      in case JSON_parse stored of
           Inl e \<Rightarrow> Inl e
         | Inr JOther \<Rightarrow> Inl TypeError
         | Inr (JArray history) \<Rightarrow> Inr history)"

text \<open>
  \<^verbatim>\<open>updateHistoryDisplay\<close> (history.js) renders one row per entry that has a winner:
  \<^verbatim>\<open>
  history.forEach((entry, index) => {
      const type = 'attractor';
      const winner = entry.winners[type] || entry.winners['blind_spot']
                     || Object.values(entry.winners)[0];
      if (!winner) return;
      const result = winner.result;
      const coords = formatCoords(result.coords.lat, result.coords.lng);
      const date = new Date(entry.timestamp).toLocaleDateString();
      const mode = entry.request.mode === 'flower_power' ? 'Flower' : 'Standard';
      // Convert radius to current display unit
      const radiusDisplay = formatRadius(entry.request.radius);
      html += ...
  });
  \<close>
  A row is the coordinate, the mode label, the radius as displayed and the entry's id; the
  date is left out. An entry with a winner and without a request makes
  \<^verbatim>\<open>entry.request.mode\<close> throw a \<^verbatim>\<open>TypeError\<close>. The first argument is \<^verbatim>\<open>state.units\<close>.
\<close>

definition first_winner :: "(string \<times> winner) list \<Rightarrow> winner option" where
  "first_winner ws =
     (case map_of ws ''attractor'' of
        Some w \<Rightarrow> Some w
      | None \<Rightarrow>
          (case map_of ws ''blind_spot'' of
             Some w \<Rightarrow> Some w
           | None \<Rightarrow> (case ws of [] \<Rightarrow> None | kw # _ \<Rightarrow> Some (snd kw))))"

type_synonym history_row = "(rat \<times> rat) \<times> string \<times> (rat \<times> string) \<times> string option"

fun updateHistoryDisplay :: "string \<Rightarrow> entry list \<Rightarrow> error + history_row list" where
  "updateHistoryDisplay u [] = Inr []"
| "updateHistoryDisplay u (e # es) =
     (case first_winner (winners e) of
        None \<Rightarrow> updateHistoryDisplay u es
      | Some w \<Rightarrow>
          (case request e of
             None \<Rightarrow> Inl TypeError
           | Some req \<Rightarrow>
               (case updateHistoryDisplay u es of
                  Inl err \<Rightarrow> Inl err
                | Inr rows \<Rightarrow>
                    Inr (((coords_lat w, coords_lng w),
                          (if mode req = Some ''flower_power'' then ''Flower'' else ''Standard''),
                          formatRadius u (radius req),
                          entry_id e) # rows))))"

text \<open>The exception of a computation, if it throws.\<close>

definition thrown :: "error + 'a \<Rightarrow> error option" where
  "thrown r = (case r of Inl e \<Rightarrow> Some e | Inr v \<Rightarrow> None)"

text \<open>
  \<^verbatim>\<open>saveToHistory\<close> and \<^verbatim>\<open>deleteHistoryEntry\<close> on the slot: the new content of the slot
  and the exception thrown, if any. Neither function catches anything; both end with
  \<^verbatim>\<open>localStorage.setItem\<close> followed by \<^verbatim>\<open>updateHistoryDisplay()\<close>, which reads the slot
  again. The first argument is \<^verbatim>\<open>state.units\<close>.
\<close>

definition saveToHistory_slot :: "string \<Rightarrow> slot \<Rightarrow> response \<Rightarrow> slot \<times> error option" where
  "saveToHistory_slot u s result =
     (case readHistory s of
        Inl e \<Rightarrow> (s, Some e)
      | Inr history \<Rightarrow>
          (let stored = saveToHistory history result
           in (Some (JSON_stringify (JArray stored)),
               thrown (updateHistoryDisplay u stored))))"

definition deleteHistoryEntry_slot ::
  "string \<Rightarrow> slot \<Rightarrow> string option \<Rightarrow> slot \<times> error option" where
  "deleteHistoryEntry_slot u s i =
     (case readHistory s of
        Inl e \<Rightarrow> (s, Some e)
      | Inr history \<Rightarrow>
          (let stored = deleteHistoryEntry history i
           in (Some (JSON_stringify (JArray stored)),
               thrown (updateHistoryDisplay u stored))))"

text \<open>
  \<^verbatim>\<open>importHistory\<close> on the slot, given the text of the chosen file:
  \<^verbatim>\<open>
  try {
      const text = await file.text();
      const imported = JSON.parse(text);
      if (!Array.isArray(imported)) {
          throw new Error('Invalid format: expected array');
      }
      const existing = JSON.parse(localStorage.getItem('q-explore-history') || '[]');
      const existingIds = new Set(existing.map(e => e.id));
      ...
      localStorage.setItem('q-explore-history', JSON.stringify(existing));
      updateHistoryDisplay();
      alert(`Imported ${imported.length} entries`);
  } catch (error) {
      alert(`Import failed: ${error.message}`);
  }
  \<close>
  The result is the new content of the slot and the alert. An exception of
  \<^verbatim>\<open>updateHistoryDisplay\<close> is caught after the slot has been written.
\<close>

datatype alert = Imported nat | ImportFailed error

definition importHistory_slot :: "string \<Rightarrow> slot \<Rightarrow> blob \<Rightarrow> slot \<times> alert" where
  "importHistory_slot u s file_text =
     (case JSON_parse file_text of
        Inl e \<Rightarrow> (s, ImportFailed e)
      | Inr JOther \<Rightarrow> (s, ImportFailed InvalidFormat)
      | Inr (JArray imported) \<Rightarrow>
          (case readHistory s of
             Inl e \<Rightarrow> (s, ImportFailed e)
           | Inr existing \<Rightarrow>
               (let (merged, n) = importHistory existing imported
                in (Some (JSON_stringify (JArray merged)),
                    (case updateHistoryDisplay u merged of
                       Inl e \<Rightarrow> ImportFailed e
                     | Inr rows \<Rightarrow> Imported n)))))"

text \<open>A payload that is not valid JSON, or whose parsed value is not an array.\<close>

definition container_failure :: "blob \<Rightarrow> bool" where
  "container_failure file_text =
     (case JSON_parse file_text of Inl e \<Rightarrow> True | Inr JOther \<Rightarrow> True | Inr (JArray a) \<Rightarrow> False)"

subsection \<open>Replay (history.js, map.js)\<close>

text \<open>
  The part of the page that the replay reads and writes: \<^verbatim>\<open>state\<close> (main.js), the radius
  and mode controls of \<^verbatim>\<open>elements\<close>, and the map objects of map.js. \<open>radiusInput\<close> is the
  number the radius control holds, in the unit the page currently displays;
  \<open>radiusCircle\<close> is the centre of the Leaflet circle and its radius in metres.
\<close>

record page =
  units :: string
  selectedLat :: "rat option"
  selectedLng :: "rat option"
  selectedType :: string
  currentResult :: "response option"
  radiusInput :: "rat option"
  modeSelect :: string
  centerMarker :: "(rat \<times> rat) option"
  radiusCircle :: "((rat \<times> rat) \<times> rat) option"
  mapView :: "(rat \<times> rat) \<times> nat"
  resultMarkers :: "(rat \<times> rat) list"
  activeTab :: string

text \<open>
  The display unit of a unit system, as \<^verbatim>\<open>loadSettings\<close> chooses it:
  \<^verbatim>\<open>const unitType = state.units === 'imperial' ? 'miles' : 'meters';\<close>
\<close>

definition unitType :: "string \<Rightarrow> string" where
  "unitType u = (if u = ''imperial'' then ''miles'' else ''meters'')"

text \<open>\<^verbatim>\<open>!x\<close> for \<^verbatim>\<open>state.selectedLat\<close> and \<^verbatim>\<open>state.selectedLng\<close>: \<^verbatim>\<open>null\<close> and 0 are falsy.\<close>

definition falsy :: "rat option \<Rightarrow> bool" where
  "falsy x = (case x of None \<Rightarrow> True | Some v \<Rightarrow> v = 0)"

text \<open>
  \<^verbatim>\<open>
  function updateLocationDisplay(lat, lng) {
      state.selectedLat = lat;
      state.selectedLng = lng;
      ...
  }
  function updateRadiusCircle() {
      if (!state.selectedLat || !state.selectedLng) return;
      const radiusInMeters = getRadiusInMeters();
      ...
      radiusCircle = L.circle([state.selectedLat, state.selectedLng], {
          radius: radiusInMeters, ... }).addTo(map);
  }
  function setMapCenter(lat, lng) {
      updateLocationDisplay(lat, lng);
      ...
      centerMarker = L.marker([lat, lng], { icon: centerIcon }).addTo(map);
      updateRadiusCircle();
  }
  \<close>
\<close>

definition updateLocationDisplay :: "page \<Rightarrow> rat \<Rightarrow> rat \<Rightarrow> page" where
  "updateLocationDisplay p la lo = p\<lparr>selectedLat := Some la, selectedLng := Some lo\<rparr>"

definition updateRadiusCircle :: "page \<Rightarrow> page" where
  "updateRadiusCircle p =
     (if falsy (selectedLat p) \<or> falsy (selectedLng p) then p
      else case selectedLat p of
             None \<Rightarrow> p
           | Some la \<Rightarrow>
               (case selectedLng p of
                  None \<Rightarrow> p
                | Some lo \<Rightarrow>
                    p\<lparr>radiusCircle :=
                        Some ((la, lo), getRadiusInMeters (units p) (radiusInput p))\<rparr>))"

definition setMapCenter :: "page \<Rightarrow> rat \<Rightarrow> rat \<Rightarrow> page" where
  "setMapCenter p la lo =
     updateRadiusCircle ((updateLocationDisplay p la lo)\<lparr>centerMarker := Some (la, lo)\<rparr>)"

text \<open>
  \<^verbatim>\<open>
  function displayResults(response, displayType) {
      clearResultMarkers();
      const winner = response.winners[displayType];
      if (!winner) return;
      ...
      const marker = addResultMarker(lat, lng, displayType, zScore);
      marker.openPopup();
      map.setView([lat, lng], map.getZoom());
      if (response.circles.length > 1) {
          response.circles.forEach(circle => {
              if (circle.id !== 'center') { ... resultMarkers.push(petalMarker); }
          });
      }
  }
  \<close>
\<close>

definition displayResults :: "page \<Rightarrow> response \<Rightarrow> string \<Rightarrow> page" where
  "displayResults p resp displayType =
     (let cleared = p\<lparr>resultMarkers := []\<rparr>
      in case map_of (resp_winners resp) displayType of
           None \<Rightarrow> cleared
         | Some w \<Rightarrow>
             (let pos = (coords_lat w, coords_lng w);
                  petals = (if length (circles resp) > 1
                            then map snd (filter (\<lambda>c. fst c \<noteq> ''center'') (circles resp))
                            else [])
              in cleared\<lparr>resultMarkers := pos # petals,
                         mapView := (pos, snd (mapView cleared))\<rparr>))"

text \<open>
  \<^verbatim>\<open>
  function loadHistoryEntry(index) {
      const history = JSON.parse(localStorage.getItem('q-explore-history') || '[]');
      const entry = history[index];
      if (!entry) return;
      const req = entry.request;
      setMapCenter(req.lat, req.lng);
      map.setView([req.lat, req.lng], 13);
      elements.radiusInput.value = req.radius;
      updateRadiusCircle();
      elements.modeSelect.value = req.mode || 'standard';
      const response = { id: entry.id, request: entry.request, winners: entry.winners,
                         circles: [], metadata: { timestamp: entry.timestamp } };
      state.currentResult = response;
      displayResults(response, state.selectedType);
      showResult(response, state.selectedType);
      switchTab('generate');
  }
  \<close>
  An index out of range reads \<^verbatim>\<open>undefined\<close> and the function returns; an entry without a
  request makes \<^verbatim>\<open>req.lat\<close> throw a \<^verbatim>\<open>TypeError\<close> before anything is changed.
  \<^verbatim>\<open>showResult\<close> only writes the result panel's text.
\<close>

definition loadHistoryEntry :: "page \<Rightarrow> entry list \<Rightarrow> nat \<Rightarrow> error + page" where
  "loadHistoryEntry p history index =
     (if index \<ge> length history then Inr p
      else let e = history ! index
           in case request e of
                None \<Rightarrow> Inl TypeError
              | Some req \<Rightarrow>
                  (let p1 = setMapCenter p (lat req) (lng req);
                       p2 = p1\<lparr>mapView := ((lat req, lng req), 13)\<rparr>;
                       p3 = p2\<lparr>radiusInput := Some (radius req)\<rparr>;
                       p4 = updateRadiusCircle p3;
                       p5 = p4\<lparr>modeSelect :=
                               (case mode req of
                                  None \<Rightarrow> ''standard''
                                | Some m \<Rightarrow> if m = [] then ''standard'' else m)\<rparr>;
                       resp = \<lparr>resp_id = entry_id e, resp_request = request e,
                               resp_winners = winners e, circles = [],
                               metadata_timestamp = timestamp e\<rparr>;
                       p6 = p5\<lparr>currentResult := Some resp\<rparr>;
                       p7 = displayResults p6 resp (selectedType p6)
                   in Inr (p7\<lparr>activeTab := ''generate''\<rparr>)))"

subsection \<open>Sequences of store operations and the ordering rule\<close>

text \<open>
  The three ways a record enters the store: \<^verbatim>\<open>saveToHistory\<close> (add), the merge of
  \<^verbatim>\<open>syncHistoryFromServer\<close> and the bulk import of \<^verbatim>\<open>importHistory\<close>.
\<close>

datatype operation = Add response | MergeImport "response list" | ImportBulk "entry list"

fun apply_operation :: "entry list \<Rightarrow> operation \<Rightarrow> entry list" where
  "apply_operation h (Add r) = saveToHistory h r"
| "apply_operation h (MergeImport rs) = syncHistoryFromServer h rs"
| "apply_operation h (ImportBulk es) = fst (importHistory h es)"

definition run :: "entry list \<Rightarrow> operation list \<Rightarrow> entry list" where
  "run h xs = foldl apply_operation h xs"

text \<open>
  The ordering rule: \<open>a\<close> may stand before \<open>b\<close> when both have a timestamp and the one of
  \<open>a\<close> is not older.
\<close>

definition not_older :: "entry \<Rightarrow> entry \<Rightarrow> bool" where
  "not_older a b =
     (case timestamp a of
        None \<Rightarrow> False
      | Some ta \<Rightarrow> (case timestamp b of None \<Rightarrow> False | Some tb \<Rightarrow> tb \<le> ta))"

definition newest_first :: "entry list \<Rightarrow> bool" where
  "newest_first h = sorted_wrt not_older h"

text \<open>
  An entry is timed when its timestamp is an instant; its time value is that instant (and 0
  for an entry that is not timed, which the properties below exclude).
\<close>

definition timed :: "entry \<Rightarrow> bool" where
  "timed e = (timestamp e \<noteq> None)"

definition time_value :: "entry \<Rightarrow> int" where
  "time_value e = (case timestamp e of None \<Rightarrow> 0 | Some t \<Rightarrow> t)"

text \<open>The records that an operation inserts into the store \<open>h\<close>, in the order of insertion.\<close>

fun accepted :: "entry list \<Rightarrow> operation \<Rightarrow> entry list" where
  "accepted h (Add r) = [history_entry r]"
| "accepted h (MergeImport rs) =
     map history_entry (filter (\<lambda>r. resp_id r \<notin> set (map entry_id h)) rs)"
| "accepted h (ImportBulk es) =
     filter (\<lambda>e. truthy_id (entry_id e) \<and> entry_id e \<notin> set (map entry_id h)) es"

fun all_accepted :: "entry list \<Rightarrow> operation list \<Rightarrow> entry list" where
  "all_accepted h [] = []"
| "all_accepted h (x # xs) = accepted h x @ all_accepted (apply_operation h x) xs"

text \<open>
  Every operation of the sequence offers fresh ids: an added record has an id that is not in
  the store at that moment, and no id occurs twice among the records that a merge or an
  import inserts.
\<close>

fun fresh_ids :: "entry list \<Rightarrow> operation list \<Rightarrow> bool" where
  "fresh_ids h [] = True"
| "fresh_ids h (x # xs) =
     ((case x of
         Add r \<Rightarrow> resp_id r \<notin> set (map entry_id h)
       | MergeImport rs \<Rightarrow> distinct (map entry_id (accepted h x))
       | ImportBulk es \<Rightarrow> distinct (map entry_id (accepted h x)))
      \<and> fresh_ids (apply_operation h x) xs)"

text \<open>
  Every added record is at least as recent as the records in the store at that moment (a
  generation that has just completed).
\<close>

fun adds_newest :: "entry list \<Rightarrow> operation list \<Rightarrow> bool" where
  "adds_newest h [] = True"
| "adds_newest h (x # xs) =
     ((case x of
         Add r \<Rightarrow> list_all (not_older (history_entry r)) h
       | MergeImport rs \<Rightarrow> True
       | ImportBulk es \<Rightarrow> True)
      \<and> adds_newest (apply_operation h x) xs)"

text \<open>
  A response with the given id and timestamp, for the examples: a request at (51, 7) with
  a radius of 3000 m and no winners.
\<close>

definition example_response :: "string \<Rightarrow> int \<Rightarrow> response" where
  "example_response i t =
     \<lparr>resp_id = Some i,
      resp_request = Some \<lparr>lat = 51, lng = 7, radius = 3000, mode = Some ''standard'',
                           backend = ''pseudo''\<rparr>,
      resp_winners = [], circles = [], metadata_timestamp = Some t\<rparr>"

text \<open>
  The key of the ordering rule: the negated time value, so that ascending keys are newest
  first.
\<close>

definition neg_time :: "entry \<Rightarrow> int" where
  "neg_time e = - time_value e"

text \<open>
  The example of the capacity bound: 100 generations with the timestamps 1 to 100, added in
  that order under distinct ids, and then one more record that is older than all of them.
\<close>

definition hundred_then_older :: "operation list" where
  "hundred_then_older =
     map (\<lambda>n. Add (example_response (replicate n CHR ''x'') (int n))) [1..<101]
     @ [Add (example_response ''older'' 0)]"

text \<open>
  The examples of the bulk import: nine valid records with distinct ids and the timestamps
  1 to 9, a record that has an id and a timestamp and no request, and a record that has no id.
\<close>

definition nine_records :: "entry list" where
  "nine_records =
     map (\<lambda>n. history_entry (example_response (replicate n CHR ''x'') (int n))) [1..<10]"

definition record_without_request :: entry where
  "record_without_request =
     \<lparr>entry_id = Some ''bad'', timestamp = Some 100, request = None, winners = []\<rparr>"

definition record_without_id :: entry where
  "record_without_id =
     \<lparr>entry_id = None, timestamp = Some 100,
      request = resp_request (example_response ''y'' 100), winners = []\<rparr>"

text \<open>
  The example of the repeated merge: a full store of 100 records with the timestamps 100
  down to 1, newest first, and a remote list whose first record has the id of the oldest
  local record and another timestamp, and whose second record is new.
\<close>

definition hundred_records :: "entry list" where
  "hundred_records =
     rev (map (\<lambda>n. history_entry (example_response (replicate n CHR ''x'') (int n)))
            [1..<101])"

definition colliding_remote :: "response list" where
  "colliding_remote = [example_response ''x'' 1000, example_response ''new'' 500]"

text \<open>
  The example of the capacity rule: 101 generations with the timestamps 1 to 101, added in
  that order under distinct ids.
\<close>

definition hundred_one_in_order :: "operation list" where
  "hundred_one_in_order =
     map (\<lambda>n. Add (example_response (replicate n CHR ''x'') (int n))) [1..<102]"

section \<open>Properties\<close>

subsection \<open>Unit conversion\<close>

lemma roundtrip_table:
  "list_all (\<lambda>u. case UNIT_CONVERSIONS u of
                    None \<Rightarrow> False
                  | Some c \<Rightarrow> list_all (\<lambda>v. \<bar>toCanonical c (fromCanonical c v) - v\<bar>
                                               \<le> rounding_tolerance c)
                                       representative_values)
            unit_names"
  by code_simp

lemma unit_names_complete: "UNIT_CONVERSIONS u = Some c \<Longrightarrow> u \<in> set unit_names"
  by (auto simp: UNIT_CONVERSIONS_def unit_names_def split: if_splits)

text \<open>
  C9. For every unit of the conversion table and each of the canonical values 0, 1, 3000
  and 1609340, converting to the unit (with its display rounding) and back gives the value
  again to within the unit's rounding tolerance, half a unit of the last displayed place.
\<close>

theorem roundtrip_within_tolerance:
  assumes "UNIT_CONVERSIONS u = Some c" and "v \<in> set representative_values"
  shows "\<bar>toCanonical c (fromCanonical c v) - v\<bar> \<le> rounding_tolerance c"
proof -
  have "u \<in> set unit_names"
    using assms(1) by (rule unit_names_complete)
  with roundtrip_table assms show ?thesis
    by (auto simp: list_all_iff)
qed

theorem roundtrip_within_tolerance_witness:
  "UNIT_CONVERSIONS ''miles''
     = Some \<lparr>fromMeters = MILES_PER_METER, toMeters = METERS_PER_MILE,
             step = 1 / 10, decimals = 1\<rparr>
   \<and> (3000::rat) \<in> set representative_values
   \<and> fromCanonical \<lparr>fromMeters = MILES_PER_METER, toMeters = METERS_PER_MILE,
                     step = 1 / 10, decimals = 1\<rparr> 3000 = 19 / 10
   \<and> \<bar>toCanonical \<lparr>fromMeters = MILES_PER_METER, toMeters = METERS_PER_MILE,
                    step = 1 / 10, decimals = 1\<rparr> (19 / 10) - 3000\<bar> \<le> 80467 / 1000"
proof -
  have a: "UNIT_CONVERSIONS ''miles''
             = Some \<lparr>fromMeters = MILES_PER_METER, toMeters = METERS_PER_MILE,
                     step = 1 / 10, decimals = 1\<rparr>"
    by (simp add: UNIT_CONVERSIONS_def)
  have b: "(3000::rat) \<in> set representative_values"
    by (simp add: representative_values_def)
  have c: "fromCanonical \<lparr>fromMeters = MILES_PER_METER, toMeters = METERS_PER_MILE,
                          step = 1 / 10, decimals = 1\<rparr> 3000 = 19 / 10"
    by code_simp
  have d: "rounding_tolerance \<lparr>fromMeters = MILES_PER_METER, toMeters = METERS_PER_MILE,
                               step = 1 / 10, decimals = 1\<rparr> = 80467 / 1000"
    by code_simp
  from roundtrip_within_tolerance [OF a b]
  have e: "\<bar>toCanonical \<lparr>fromMeters = MILES_PER_METER, toMeters = METERS_PER_MILE,
                          step = 1 / 10, decimals = 1\<rparr> (19 / 10) - 3000\<bar> \<le> 80467 / 1000"
    unfolding c d .
  show ?thesis
    by (intro conjI a b c e)
qed

text \<open>
  C8. The claim fails: an identifier outside the table and outside the two unit systems is
  converted without any error, exactly as \<open>metric\<close> is.
\<close>

theorem unknown_unit_treated_as_meters:
  "''furlongs'' \<notin> set unit_names \<and> ''furlongs'' \<notin> set unit_systems
   \<and> UNIT_CONVERSIONS ''furlongs'' = None
   \<and> getRadiusInMeters ''furlongs'' (Some 5) = 5
   \<and> getRadiusInMeters ''furlongs'' (Some 5) = getRadiusInMeters ''metric'' (Some 5)
   \<and> formatRadius ''furlongs'' 5 = (5, ''m'')
   \<and> formatRadius ''furlongs'' 5 = formatRadius ''metric'' 5"
  by code_simp

text \<open>
  C8, amended. \<^verbatim>\<open>getRadiusInMeters\<close> and \<^verbatim>\<open>formatRadius\<close> have no failing branch: every
  unit-system value other than \<open>imperial\<close>, supported or not, is treated as metres.
\<close>

theorem not_imperial_is_meters:
  assumes "u \<noteq> ''imperial''"
  shows "unitType u = ''meters''
         \<and> getRadiusInMeters u d = (case d of None \<Rightarrow> 3000 | Some v \<Rightarrow> if v = 0 then 3000 else v)
         \<and> formatRadius u m = (of_int (Math_round m), ''m'')"
  using assms by (simp add: getRadiusInMeters_def formatRadius_def unitType_def)

theorem not_imperial_is_meters_witness:
  "''furlongs'' \<noteq> ''imperial''
   \<and> unitType ''furlongs'' = ''meters''
   \<and> getRadiusInMeters ''furlongs'' (Some 5) = 5
   \<and> formatRadius ''furlongs'' (11 / 2) = (of_int (Math_round (11 / 2)), ''m'')"
proof -
  have a: "''furlongs'' \<noteq> ''imperial''" by simp
  from not_imperial_is_meters [OF a, of "Some 5" "11 / 2"] a show ?thesis
    by simp
qed

subsection \<open>The sort is a stable permutation\<close>

lemma mset_insert_by: "mset (insert_by cmp x ys) = add_mset x (mset ys)"
  by (induction ys) simp_all

lemma mset_Array_sort: "mset (Array_sort cmp xs) = mset xs"
  by (induction xs) (simp_all add: Array_sort_def mset_insert_by)

lemma set_Array_sort: "set (Array_sort cmp xs) = set xs"
  using mset_Array_sort [of cmp xs] by (rule mset_eq_setD)

lemma length_Array_sort: "length (Array_sort cmp xs) = length xs"
  using mset_Array_sort [of cmp xs] by (rule mset_eq_length)

lemma Array_sort_Cons:
  "Array_sort cmp (x # xs) = insert_by cmp x (Array_sort cmp xs)"
  by (simp add: Array_sort_def)

lemma sorts_after_timed:
  "timed a \<Longrightarrow> timed b \<Longrightarrow> sorts_after (by_timestamp_desc a b) \<longleftrightarrow> \<not> not_older a b"
  by (auto simp: timed_def sorts_after_def by_timestamp_desc_def not_older_def)

lemma not_older_total: "timed a \<Longrightarrow> timed b \<Longrightarrow> not_older a b \<or> not_older b a"
  by (auto simp: timed_def not_older_def)

lemma not_older_trans: "not_older a b \<Longrightarrow> not_older b c \<Longrightarrow> not_older a c"
  by (auto simp: not_older_def split: option.splits)

lemma set_insert_by: "set (insert_by cmp x ys) = insert x (set ys)"
  using mset_insert_by [of cmp x ys] by (metis mset_eq_setD set_mset_add_mset_insert set_mset_mset)

lemma newest_first_insert_by:
  assumes "timed x" and "\<forall>y\<in>set ys. timed y" and "newest_first ys"
  shows "newest_first (insert_by by_timestamp_desc x ys)"
  using assms(2,3)
proof (induction ys)
  case Nil
  then show ?case by (simp add: newest_first_def)
next
  case (Cons y ys)
  show ?case
  proof (cases "not_older x y")
    case True
    then have "\<forall>z\<in>set ys. not_older x z"
      using Cons.prems(2) by (auto simp: newest_first_def intro: not_older_trans)
    with True Cons.prems assms(1) show ?thesis
      by (simp add: sorts_after_timed newest_first_def)
  next
    case False
    then have "not_older y x"
      using not_older_total [of x y] assms(1) Cons.prems(1) by simp
    with False Cons show ?thesis
      using assms(1) by (simp add: sorts_after_timed newest_first_def set_insert_by)
  qed
qed

lemma newest_first_Array_sort:
  "\<forall>x\<in>set xs. timed x \<Longrightarrow> newest_first (Array_sort by_timestamp_desc xs)"
proof (induction xs)
  case Nil
  then show ?case by (simp add: Array_sort_def newest_first_def)
next
  case (Cons x xs)
  then show ?case
    by (simp add: Array_sort_Cons newest_first_insert_by set_Array_sort)
qed

lemma insert_by_front:
  "\<forall>z\<in>set zs. not_older x z \<Longrightarrow> insert_by by_timestamp_desc x zs = x # zs"
  by (cases zs) (auto simp: sorts_after_def by_timestamp_desc_def not_older_def split: option.splits)

lemma Array_sort_append_newest:
  assumes "newest_first xs" and "\<forall>x\<in>set xs. \<forall>y\<in>set ys. not_older x y"
  shows "Array_sort by_timestamp_desc (xs @ ys) = xs @ Array_sort by_timestamp_desc ys"
  using assms
proof (induction xs)
  case Nil
  then show ?case by simp
next
  case (Cons x xs)
  then have "Array_sort by_timestamp_desc (xs @ ys) = xs @ Array_sort by_timestamp_desc ys"
    by (simp add: newest_first_def)
  moreover have "\<forall>z\<in>set (xs @ Array_sort by_timestamp_desc ys). not_older x z"
    using Cons.prems by (auto simp: newest_first_def set_Array_sort)
  ultimately show ?case
    by (simp add: Array_sort_Cons insert_by_front)
qed

lemma Array_sort_newest_first_id:
  "newest_first xs \<Longrightarrow> Array_sort by_timestamp_desc xs = xs"
  using Array_sort_append_newest [of xs "[]"] by (simp add: Array_sort_def)

lemma newest_first_take_drop:
  assumes "newest_first xs" and "x \<in> set (take n xs)" and "y \<in> set (drop n xs)"
  shows "not_older x y"
proof -
  have "sorted_wrt not_older (take n xs @ drop n xs)"
    using assms(1) by (simp add: newest_first_def)
  with assms(2,3) show ?thesis
    unfolding sorted_wrt_append by blast
qed

lemma newest_first_take: "newest_first xs \<Longrightarrow> newest_first (take n xs)"
  by (simp add: newest_first_def sorted_wrt_take)

subsection \<open>The merges as one expression\<close>

lemma foldl_push_remote:
  "foldl (push_remote ids) h rs
     = h @ map history_entry (filter (\<lambda>r. resp_id r \<notin> set ids) rs)"
  by (induction rs arbitrary: h) (simp_all add: push_remote_def)

lemma foldl_push_imported:
  "foldl (push_imported ids) h es
     = h @ filter (\<lambda>e. truthy_id (entry_id e) \<and> entry_id e \<notin> set ids) es"
  by (induction es arbitrary: h) (simp_all add: push_imported_def)

lemma cap_take: "(if length xs > n then take n xs else xs) = take n xs"
  by simp

lemma syncHistoryFromServer_eq:
  "syncHistoryFromServer h rs
     = take 100 (Array_sort by_timestamp_desc (h @ accepted h (MergeImport rs)))"
  by (simp add: syncHistoryFromServer_def Let_def foldl_push_remote)

lemma importHistory_eq:
  "fst (importHistory h es)
     = take 100 (Array_sort by_timestamp_desc (h @ accepted h (ImportBulk es)))"
  by (simp add: importHistory_def Let_def foldl_push_imported)

lemma saveToHistory_eq: "saveToHistory h r = take 100 (history_entry r # h)" if "length h \<le> 100"
proof (cases "length h = 100")
  case True
  then have "butlast (history_entry r # h) = take 100 (history_entry r # h)"
    by (simp add: butlast_conv_take)
  with True show ?thesis by (simp add: saveToHistory_def Let_def)
next
  case False
  with that show ?thesis by (simp add: saveToHistory_def Let_def)
qed

subsection \<open>Merge\<close>

lemma timed_history_entry: "timed (history_entry r) \<longleftrightarrow> metadata_timestamp r \<noteq> None"
  by (simp add: timed_def history_entry_def)

lemma not_older_same_time:
  "not_older x s \<Longrightarrow> timestamp c = timestamp s \<Longrightarrow> not_older x c"
  by (auto simp: not_older_def split: option.splits)

text \<open>
  C5. The claim fails for a remote record that has the id of a local record and another
  timestamp. On a full store of 100 records the first merge skips it, inserts the new
  record and evicts the oldest local record, the one with that id; the second merge then
  finds the id absent and inserts the remote record, so the store changes again.
\<close>

theorem merge_twice_differs:
  "map time_value (take 3 (syncHistoryFromServer hundred_records colliding_remote))
     = [500, 100, 99]
   \<and> map time_value
        (take 3 (syncHistoryFromServer
                   (syncHistoryFromServer hundred_records colliding_remote)
                   colliding_remote))
     = [1000, 500, 100]
   \<and> syncHistoryFromServer (syncHistoryFromServer hundred_records colliding_remote)
        colliding_remote
     \<noteq> syncHistoryFromServer hundred_records colliding_remote"
proof -
  have once: "map time_value (take 3 (syncHistoryFromServer hundred_records colliding_remote))
     = [500, 100, 99]"
    by code_simp
  have twice: "map time_value
        (take 3 (syncHistoryFromServer
                   (syncHistoryFromServer hundred_records colliding_remote)
                   colliding_remote))
     = [1000, 500, 100]"
    by code_simp
  from once twice
  have "syncHistoryFromServer (syncHistoryFromServer hundred_records colliding_remote)
          colliding_remote
        \<noteq> syncHistoryFromServer hundred_records colliding_remote"
    by auto
  with once twice show ?thesis by simp
qed

text \<open>
  C5, amended. Applying the merge of \<^verbatim>\<open>syncHistoryFromServer\<close> twice with the same remote
  records gives the store of a single application, for every store array (unsorted, over
  capacity, with repeated ids) and every remote list in which every timestamp, local and
  remote, is an instant and every remote record that has the id of a local record has that
  record's timestamp.
\<close>

theorem merge_idempotent:
  assumes timed_local: "\<forall>s\<in>set S. timed s"
    and timed_remote: "\<forall>r\<in>set R. metadata_timestamp r \<noteq> None"
    and same_record: "\<forall>r\<in>set R. \<forall>s\<in>set S. entry_id s = resp_id r
                         \<longrightarrow> timestamp s = metadata_timestamp r"
  shows "syncHistoryFromServer (syncHistoryFromServer S R) R = syncHistoryFromServer S R"
proof -
  define C1 where "C1 = accepted S (MergeImport R)"
  define L where "L = Array_sort by_timestamp_desc (S @ C1)"
  define S1 where "S1 = take 100 L"
  define C2 where "C2 = accepted S1 (MergeImport R)"
  have first: "syncHistoryFromServer S R = S1"
    by (simp add: syncHistoryFromServer_eq S1_def L_def C1_def)
  have second: "syncHistoryFromServer S1 R = take 100 (Array_sort by_timestamp_desc (S1 @ C2))"
    by (simp add: syncHistoryFromServer_eq C2_def)
  have timed_L: "\<forall>x\<in>set L. timed x"
    using timed_local timed_remote
    by (auto simp: L_def C1_def set_Array_sort timed_history_entry)
  then have sorted_L: "newest_first L"
    unfolding L_def by (metis newest_first_Array_sort set_Array_sort)
  then have sorted_S1: "newest_first S1"
    by (simp add: S1_def newest_first_take)
  have set_L: "set L = set S \<union> set C1"
    by (simp add: L_def set_Array_sort)
  show ?thesis
  proof (cases "length L \<le> 100")
    case True
    then have S1_L: "S1 = L" by (simp add: S1_def)
    have "resp_id r \<in> set (map entry_id S1)" if "r \<in> set R" for r
    proof (cases "resp_id r \<in> set (map entry_id S)")
      case True
      then show ?thesis by (auto simp: S1_L set_L)
    next
      case False
      with that have "history_entry r \<in> set C1"
        by (simp add: C1_def)
      then have "entry_id (history_entry r) \<in> set (map entry_id S1)"
        unfolding S1_L using set_L by (metis UnCI image_eqI list.set_map)
      then show ?thesis by (simp add: history_entry_def)
    qed
    then have "C2 = []"
      by (simp add: C2_def filter_empty_conv)
    moreover have "Array_sort by_timestamp_desc S1 = S1"
      using sorted_S1 by (rule Array_sort_newest_first_id)
    moreover have "take 100 S1 = S1"
      by (simp add: S1_def)
    ultimately have "take 100 (Array_sort by_timestamp_desc (S1 @ C2)) = S1"
      by simp
    then show ?thesis
      unfolding first second .
  next
    case False
    then have len_S1: "length S1 = 100" by (simp add: S1_def)
    have below: "not_older x c" if "x \<in> set S1" and "c \<in> set C2" for x c
    proof -
      from that(2) obtain r where r: "r \<in> set R" "resp_id r \<notin> set (map entry_id S1)"
        and c: "c = history_entry r"
        by (auto simp: C2_def)
      show ?thesis
      proof (cases "resp_id r \<in> set (map entry_id S)")
        case True
        then obtain s where s: "s \<in> set S" "entry_id s = resp_id r" by auto
        with r(2) have "s \<notin> set S1" by force
        moreover have "s \<in> set (take 100 L @ drop 100 L)"
          using s(1) set_L by simp
        ultimately have "s \<in> set (drop 100 L)"
          unfolding set_append S1_def by blast
        with sorted_L that(1) have "not_older x s"
          unfolding S1_def by (metis newest_first_take_drop)
        moreover have "timestamp c = timestamp s"
          using same_record r(1) s by (simp add: c history_entry_def)
        ultimately show ?thesis by (rule not_older_same_time)
      next
        case False
        with r(1) have "c \<in> set C1" by (simp add: C1_def c)
        moreover have "c \<notin> set S1"
          using r(2) by (force simp: c history_entry_def)
        moreover have "set L = set (take 100 L @ drop 100 L)" by simp
        ultimately have "c \<in> set (drop 100 L)"
          unfolding set_append S1_def using set_L by blast
        with sorted_L that(1) show ?thesis
          unfolding S1_def by (metis newest_first_take_drop)
      qed
    qed
    then have "Array_sort by_timestamp_desc (S1 @ C2) = S1 @ Array_sort by_timestamp_desc C2"
      using sorted_S1 by (simp add: Array_sort_append_newest)
    with len_S1 have "take 100 (Array_sort by_timestamp_desc (S1 @ C2)) = S1"
      by simp
    then show ?thesis
      unfolding first second .
  qed
qed

theorem merge_idempotent_witness:
  "list_all timed [history_entry (example_response ''a'' 10)]
   \<and> list_all (\<lambda>r. metadata_timestamp r \<noteq> None)
         [example_response ''a'' 10, example_response ''c'' 5]
   \<and> syncHistoryFromServer
         (syncHistoryFromServer [history_entry (example_response ''a'' 10)]
            [example_response ''a'' 10, example_response ''c'' 5])
         [example_response ''a'' 10, example_response ''c'' 5]
       = syncHistoryFromServer [history_entry (example_response ''a'' 10)]
           [example_response ''a'' 10, example_response ''c'' 5]
   \<and> syncHistoryFromServer [history_entry (example_response ''a'' 10)]
           [example_response ''a'' 10, example_response ''c'' 5]
       = [history_entry (example_response ''a'' 10), history_entry (example_response ''c'' 5)]"
proof -
  have a: "\<forall>s\<in>set [history_entry (example_response ''a'' 10)]. timed s"
    by (simp add: timed_def history_entry_def example_response_def)
  have b: "\<forall>r\<in>set [example_response ''a'' 10, example_response ''c'' 5].
             metadata_timestamp r \<noteq> None"
    by (simp add: example_response_def)
  have c: "\<forall>r\<in>set [example_response ''a'' 10, example_response ''c'' 5].
           \<forall>s\<in>set [history_entry (example_response ''a'' 10)].
             entry_id s = resp_id r \<longrightarrow> timestamp s = metadata_timestamp r"
    by (simp add: history_entry_def example_response_def)
  have d: "syncHistoryFromServer [history_entry (example_response ''a'' 10)]
             [example_response ''a'' 10, example_response ''c'' 5]
           = [history_entry (example_response ''a'' 10),
              history_entry (example_response ''c'' 5)]"
    by code_simp
  have a': "list_all timed [history_entry (example_response ''a'' 10)]"
    using a by (simp add: list_all_iff)
  have b': "list_all (\<lambda>r. metadata_timestamp r \<noteq> None)
              [example_response ''a'' 10, example_response ''c'' 5]"
    using b by (simp add: list_all_iff)
  show ?thesis
    by (intro conjI a' b' d merge_idempotent [OF a b c])
qed

subsection \<open>Add\<close>

lemma saveToHistory_Cons:
  "saveToHistory h r = history_entry r # (if 100 \<le> length h then butlast h else h)"
  by (cases h) (simp_all add: saveToHistory_def Let_def)

lemma length_saveToHistory: "length h \<le> 100 \<Longrightarrow> length (saveToHistory h r) \<le> 100"
  by (simp add: saveToHistory_Cons)

lemma newest_first_butlast: "newest_first h \<Longrightarrow> newest_first (butlast h)"
  by (simp add: newest_first_def butlast_conv_take sorted_wrt_take)

text \<open>
  C2. The claim fails: \<^verbatim>\<open>saveToHistory\<close> does not sort. Adding a record older than the one in
  the store puts it first.
\<close>

theorem add_not_sorted:
  "newest_first [history_entry (example_response ''b'' 20)]
   \<and> saveToHistory [history_entry (example_response ''b'' 20)] (example_response ''a'' 10)
       = [history_entry (example_response ''a'' 10), history_entry (example_response ''b'' 20)]
   \<and> \<not> newest_first
         (saveToHistory [history_entry (example_response ''b'' 20)] (example_response ''a'' 10))"
  by (simp add: saveToHistory_def newest_first_def not_older_def history_entry_def
      example_response_def)

text \<open>
  C2, amended. Adding a record puts it at the head of the store, before the previous records
  in their previous order, and drops the last record when the store held 100 or more; a
  store within the capacity stays within it. Nothing is sorted: the result is in
  non-increasing timestamp order when the store was and the added record is not older than
  any record of the store.
\<close>

theorem add_prepends:
  "saveToHistory h r = history_entry r # (if 100 \<le> length h then butlast h else h)
   \<and> (length h \<le> 100 \<longrightarrow> length (saveToHistory h r) \<le> 100)
   \<and> (newest_first h \<and> list_all (not_older (history_entry r)) h
        \<longrightarrow> newest_first (saveToHistory h r))"
proof (intro conjI impI)
  show "saveToHistory h r = history_entry r # (if 100 \<le> length h then butlast h else h)"
    by (rule saveToHistory_Cons)
  show "length (saveToHistory h r) \<le> 100" if "length h \<le> 100"
    using that by (rule length_saveToHistory)
  show "newest_first (saveToHistory h r)"
    if "newest_first h \<and> list_all (not_older (history_entry r)) h"
  proof -
    from that have "\<forall>e\<in>set (butlast h). not_older (history_entry r) e"
      by (auto simp: list_all_iff dest: in_set_butlastD)
    with that show ?thesis
      using newest_first_butlast [of h]
      by (simp add: saveToHistory_Cons newest_first_def list_all_iff)
  qed
qed

theorem add_prepends_witness:
  "length [history_entry (example_response ''a'' 10)] \<le> 100
   \<and> newest_first [history_entry (example_response ''a'' 10)]
   \<and> list_all (not_older (history_entry (example_response ''b'' 20)))
        [history_entry (example_response ''a'' 10)]
   \<and> saveToHistory [history_entry (example_response ''a'' 10)] (example_response ''b'' 20)
       = [history_entry (example_response ''b'' 20), history_entry (example_response ''a'' 10)]
   \<and> newest_first
        (saveToHistory [history_entry (example_response ''a'' 10)] (example_response ''b'' 20))"
proof -
  have a: "length [history_entry (example_response ''a'' 10)] \<le> 100" by simp
  have b: "newest_first [history_entry (example_response ''a'' 10)]"
    by (simp add: newest_first_def)
  have c: "list_all (not_older (history_entry (example_response ''b'' 20)))
        [history_entry (example_response ''a'' 10)]"
    by (simp add: not_older_def history_entry_def example_response_def)
  have d: "saveToHistory [history_entry (example_response ''a'' 10)]
             (example_response ''b'' 20)
           = [history_entry (example_response ''b'' 20),
              history_entry (example_response ''a'' 10)]"
    by (simp add: saveToHistory_def)
  from add_prepends [of "[history_entry (example_response ''a'' 10)]"
      "example_response ''b'' 20"] b c
  have e: "newest_first (saveToHistory [history_entry (example_response ''a'' 10)]
             (example_response ''b'' 20))"
    by blast
  show ?thesis
    by (intro conjI a b c d e)
qed

subsection \<open>Uniqueness of ids\<close>

lemma distinct_ids_Array_sort:
  "distinct (map entry_id (Array_sort cmp xs)) \<longleftrightarrow> distinct (map entry_id xs)"
proof -
  have "mset (map entry_id (Array_sort cmp xs)) = mset (map entry_id xs)"
    by (simp add: mset_Array_sort)
  then show ?thesis by (rule mset_eq_imp_distinct_iff)
qed

lemma distinct_ids_take: "distinct (map entry_id xs) \<Longrightarrow> distinct (map entry_id (take n xs))"
  by (simp add: take_map [symmetric])

lemma accepted_merge_ids_new:
  "set (map entry_id h) \<inter> set (map entry_id (accepted h (MergeImport rs))) = {}"
  by (auto simp: history_entry_def) (metis imageI)

lemma accepted_import_ids_new:
  "set (map entry_id h) \<inter> set (map entry_id (accepted h (ImportBulk es))) = {}"
  by auto (metis imageI)

lemma distinct_ids_step:
  assumes "distinct (map entry_id h)" and "fresh_ids h [x]"
  shows "distinct (map entry_id (apply_operation h x))"
proof (cases x)
  case (Add r)
  with assms have "distinct (map entry_id (history_entry r # h))"
    by (simp add: history_entry_def)
  then have "distinct (map entry_id (butlast (history_entry r # h)))"
    unfolding map_butlast by (rule distinct_butlast)
  with \<open>distinct (map entry_id (history_entry r # h))\<close> show ?thesis
    by (simp add: Add saveToHistory_def Let_def del: butlast.simps)
next
  case (MergeImport rs)
  with assms have "distinct (map entry_id (h @ accepted h (MergeImport rs)))"
    using accepted_merge_ids_new [of h rs] by (simp del: accepted.simps)
  then show ?thesis
    unfolding MergeImport apply_operation.simps syncHistoryFromServer_eq
    by (simp only: distinct_ids_take distinct_ids_Array_sort)
next
  case (ImportBulk es)
  with assms have "distinct (map entry_id (h @ accepted h (ImportBulk es)))"
    using accepted_import_ids_new [of h es] by (simp del: accepted.simps)
  then show ?thesis
    unfolding ImportBulk apply_operation.simps importHistory_eq
    by (simp only: distinct_ids_take distinct_ids_Array_sort)
qed

lemma distinct_ids_run:
  "distinct (map entry_id h) \<Longrightarrow> fresh_ids h xs \<Longrightarrow> distinct (map entry_id (run h xs))"
proof (induction xs arbitrary: h)
  case Nil
  then show ?case by (simp add: run_def)
next
  case (Cons x xs)
  from Cons.prems have "fresh_ids h [x]" by simp
  with Cons.prems(1) have "distinct (map entry_id (apply_operation h x))"
    by (rule distinct_ids_step)
  moreover from Cons.prems have "fresh_ids (apply_operation h x) xs" by simp
  ultimately have "distinct (map entry_id (run (apply_operation h x) xs))"
    by (rule Cons.IH)
  then show ?case by (simp add: run_def)
qed

text \<open>
  C3. The claim fails: \<^verbatim>\<open>saveToHistory\<close> does not look at ids. Adding a record twice
  stores it twice.
\<close>

theorem add_twice_duplicates_id:
  "run [] [Add (example_response ''a'' 10), Add (example_response ''a'' 10)]
     = [history_entry (example_response ''a'' 10), history_entry (example_response ''a'' 10)]
   \<and> \<not> distinct (map entry_id
          (run [] [Add (example_response ''a'' 10), Add (example_response ''a'' 10)]))"
  by (simp add: run_def saveToHistory_def)

text \<open>
  C3, amended. After any sequence of adds, merges and imports from the empty store in which
  every added record has an id that is not in the store at that moment, and no id occurs
  twice among the records that one merge or import inserts, no two records of the store share
  an id.
\<close>

theorem fresh_ids_unique:
  assumes "fresh_ids [] xs"
  shows "distinct (map entry_id (run [] xs))"
  using assms by (simp add: distinct_ids_run)

theorem fresh_ids_unique_witness:
  "fresh_ids [] [Add (example_response ''a'' 10), Add (example_response ''b'' 20),
                MergeImport [example_response ''a'' 10, example_response ''c'' 5]]
   \<and> map entry_id (run [] [Add (example_response ''a'' 10), Add (example_response ''b'' 20),
                MergeImport [example_response ''a'' 10, example_response ''c'' 5]])
      = [Some ''b'', Some ''a'', Some ''c'']
   \<and> distinct (map entry_id (run [] [Add (example_response ''a'' 10), Add (example_response ''b'' 20),
                MergeImport [example_response ''a'' 10, example_response ''c'' 5]]))"
proof -
  have a: "fresh_ids [] [Add (example_response ''a'' 10), Add (example_response ''b'' 20),
                MergeImport [example_response ''a'' 10, example_response ''c'' 5]]"
    by code_simp
  have b: "map entry_id (run [] [Add (example_response ''a'' 10), Add (example_response ''b'' 20),
                MergeImport [example_response ''a'' 10, example_response ''c'' 5]])
      = [Some ''b'', Some ''a'', Some ''c'']"
    by code_simp
  show ?thesis
    by (intro conjI a b fresh_ids_unique [OF a])
qed

subsection \<open>Capacity\<close>

lemma take_Cons_take: "take m (y # take m ys) = take m (y # ys)"
  by (cases m) simp_all

lemma take_insort:
  "take n (insort b ys) = take n (insort b (take n ys))"
proof (induction ys arbitrary: n)
  case Nil
  then show ?case by simp
next
  case (Cons y ys)
  show ?case
  proof (cases n)
    case 0
    then show ?thesis by simp
  next
    case (Suc m)
    with Cons [of m] show ?thesis by (simp add: take_Cons_take)
  qed
qed

lemma sort_mset_cong:
  assumes "mset xs = mset ys"
  shows "sort xs = sort ys"
proof (rule properties_for_sort)
  show "mset (sort ys) = mset xs" using assms by simp
  show "sorted (sort ys)" by simp
qed

lemma take_sort_prefix:
  "take n (sort (bs @ take n (sort as))) = take n (sort (bs @ as))"
proof (induction bs)
  case Nil
  have "sort (take n (sort as)) = take n (sort as)"
    by (simp add: sorted_sort_id sorted_wrt_take)
  then show ?case by simp
next
  case (Cons b bs)
  have "take n (sort (b # bs @ take n (sort as)))
          = take n (insort b (take n (sort (bs @ take n (sort as)))))"
    using take_insort [of n b "sort (bs @ take n (sort as))"] by (simp add: sort_key_simps)
  also have "\<dots> = take n (insort b (take n (sort (bs @ as))))"
    by (simp only: Cons.IH)
  also have "\<dots> = take n (sort (b # bs @ as))"
    using take_insort [of n b "sort (bs @ as)"] by simp
  finally show ?case by simp
qed

lemma take_sort_absorb:
  "take n (sort (take n (sort as) @ bs)) = take n (sort (as @ bs))"
proof -
  have "sort (take n (sort as) @ bs) = sort (bs @ take n (sort as))"
    by (rule sort_mset_cong) simp
  moreover have "sort (as @ bs) = sort (bs @ as)"
    by (rule sort_mset_cong) simp
  ultimately show ?thesis
    by (simp only: take_sort_prefix)
qed

lemma rev_sort_uminus: "rev (sort xs) = map uminus (sort (map uminus xs))" for xs :: "int list"
proof -
  have "sort (map uminus xs) = map uminus (rev (sort xs))"
  proof (rule properties_for_sort)
    show "mset (map uminus (rev (sort xs))) = mset (map uminus xs)"
      by simp
    show "sorted (map uminus (rev (sort xs)))"
      by (simp add: rev_map sorted_wrt_rev sorted_wrt_map)
  qed
  then show ?thesis
    by (simp add: comp_def)
qed

lemma take_append_take: "take n (xs @ take n ys) = take n (xs @ ys)"
  by (induction xs arbitrary: n) (simp_all add: take_Cons split: nat.split)

lemma run_adds:
  "length h \<le> 100 \<Longrightarrow> run h (map Add rs) = take 100 (rev (map history_entry rs) @ h)"
proof (induction rs arbitrary: h)
  case Nil
  then show ?case by (simp add: run_def)
next
  case (Cons r rs)
  then have "run (saveToHistory h r) (map Add rs)
               = take 100 (rev (map history_entry rs) @ saveToHistory h r)"
    by (simp add: length_saveToHistory)
  also have "\<dots> = take 100 (rev (map history_entry rs) @ history_entry r # h)"
    using Cons.prems by (simp only: saveToHistory_eq take_append_take)
  finally show ?case by (simp add: run_def)
qed

lemma hundred_then_older_run:
  "run [] hundred_then_older
     = history_entry (example_response ''older'' 0)
       # rev (map (\<lambda>n. history_entry (example_response (replicate n CHR ''x'') (int n)))
               [2..<101])"
proof -
  define f where "f = (\<lambda>n. example_response (replicate n CHR ''x'') (int n))"
  define rs where "rs = map f [1..<101] @ [example_response ''older'' 0]"
  define kept where "kept = rev (map (\<lambda>n. history_entry (f n)) [2..<101])"
  have ops: "hundred_then_older = map Add rs"
    by (simp add: hundred_then_older_def rs_def f_def comp_def)
  have "[1..<101] = 1 # [2..<101]"
    by (simp add: upt_conv_Cons)
  then have "rev (map history_entry rs)
               = history_entry (example_response ''older'' 0) # kept @ [history_entry (f 1)]"
    by (simp add: rs_def kept_def comp_def)
  moreover have "length kept = 99"
    by (simp add: kept_def)
  ultimately have "take 100 (rev (map history_entry rs) @ [])
                     = history_entry (example_response ''older'' 0) # kept"
    by simp
  moreover have "run [] (map Add rs) = take 100 (rev (map history_entry rs) @ [])"
    by (rule run_adds) simp
  ultimately show ?thesis
    unfolding ops kept_def f_def by simp
qed

lemma not_older_neg_time: "not_older a b \<Longrightarrow> neg_time a \<le> neg_time b"
  by (auto simp: not_older_def neg_time_def time_value_def split: option.splits)

lemma sorted_neg_time: "newest_first h \<Longrightarrow> sorted (map neg_time h)"
  unfolding newest_first_def sorted_wrt_map
  by (rule sorted_wrt_mono_rel [where P = not_older]) (simp_all add: not_older_neg_time)

lemma neg_time_Array_sort:
  assumes "\<forall>x\<in>set xs. timed x"
  shows "map neg_time (Array_sort by_timestamp_desc xs) = sort (map neg_time xs)"
proof (rule sym, rule properties_for_sort)
  show "mset (map neg_time (Array_sort by_timestamp_desc xs)) = mset (map neg_time xs)"
    by (simp add: mset_Array_sort)
  show "sorted (map neg_time (Array_sort by_timestamp_desc xs))"
    using assms by (simp add: sorted_neg_time newest_first_Array_sort)
qed

lemma set_apply_operation:
  "set (apply_operation h x) \<subseteq> set h \<union> set (accepted h x)"
proof (cases x)
  case (Add r)
  have "set (butlast (history_entry r # h)) \<subseteq> set (history_entry r # h)"
    by (meson in_set_butlastD subsetI)
  then show ?thesis
    by (auto simp: Add saveToHistory_def Let_def simp del: butlast.simps)
next
  case (MergeImport rs)
  have "set (take 100 (Array_sort by_timestamp_desc (h @ accepted h x)))
          \<subseteq> set (Array_sort by_timestamp_desc (h @ accepted h x))"
    by (rule set_take_subset)
  then show ?thesis
    unfolding MergeImport apply_operation.simps syncHistoryFromServer_eq set_Array_sort
    by simp
next
  case (ImportBulk es)
  have "set (take 100 (Array_sort by_timestamp_desc (h @ accepted h x)))
          \<subseteq> set (Array_sort by_timestamp_desc (h @ accepted h x))"
    by (rule set_take_subset)
  then show ?thesis
    unfolding ImportBulk apply_operation.simps importHistory_eq set_Array_sort
    by simp
qed

lemma length_apply_operation:
  "length h \<le> 100 \<Longrightarrow> length (apply_operation h x) \<le> 100"
  by (cases x) (simp_all add: length_saveToHistory syncHistoryFromServer_eq importHistory_eq)

lemma length_run: "length h \<le> 100 \<Longrightarrow> length (run h xs) \<le> 100"
  by (induction xs arbitrary: h) (simp_all add: run_def length_apply_operation)

lemma set_run: "set (run h xs) \<subseteq> set h \<union> set (all_accepted h xs)"
proof (induction xs arbitrary: h)
  case Nil
  then show ?case by (simp add: run_def)
next
  case (Cons x xs)
  have "set (run (apply_operation h x) xs)
          \<subseteq> set (apply_operation h x) \<union> set (all_accepted (apply_operation h x) xs)"
    by (rule Cons.IH)
  with set_apply_operation [of h x] show ?case
    by (auto simp: run_def)
qed

lemma step_keys:
  assumes "newest_first h" and "length h \<le> 100"
    and "\<forall>e\<in>set h. timed e" and "\<forall>e\<in>set (accepted h x). timed e"
    and "adds_newest h [x]"
  shows "map neg_time (apply_operation h x)
           = take 100 (sort (map neg_time h @ map neg_time (accepted h x)))"
    and "newest_first (apply_operation h x)"
proof -
  have both: "map neg_time (apply_operation h x)
           = take 100 (sort (map neg_time h @ map neg_time (accepted h x)))
         \<and> newest_first (apply_operation h x)"
  proof (cases x)
    case (Add r)
    with assms(5) have newest: "\<forall>e\<in>set h. not_older (history_entry r) e"
      by (simp add: list_all_iff)
    with assms(1) have sorted_all: "newest_first (history_entry r # h)"
      by (simp add: newest_first_def)
    have "sort (map neg_time h @ [neg_time (history_entry r)])
            = sort (map neg_time (history_entry r # h))"
      by (rule sort_mset_cong) simp
    also have "\<dots> = map neg_time (history_entry r # h)"
      using sorted_all by (simp only: sorted_sort_id sorted_neg_time)
    finally have "take 100 (sort (map neg_time h @ [neg_time (history_entry r)]))
                    = map neg_time (take 100 (history_entry r # h))"
      by (simp only: take_map)
    with sorted_all assms(2) show ?thesis
      by (simp add: Add saveToHistory_eq newest_first_take del: take_Cons_numeral)
  next
    case (MergeImport rs)
    define both where "both = h @ accepted h (MergeImport rs)"
    have t: "\<forall>e\<in>set both. timed e"
      using assms(3,4) by (auto simp: both_def MergeImport simp del: accepted.simps)
    have k: "map neg_time (Array_sort by_timestamp_desc both) = sort (map neg_time both)"
      using t by (rule neg_time_Array_sort)
    have s: "newest_first (take 100 (Array_sort by_timestamp_desc both))"
      using t by (simp add: newest_first_take newest_first_Array_sort)
    have "apply_operation h x = take 100 (Array_sort by_timestamp_desc both)"
      by (simp only: MergeImport apply_operation.simps syncHistoryFromServer_eq both_def)
    moreover have "map neg_time (take 100 (Array_sort by_timestamp_desc both))
                     = take 100 (sort (map neg_time h @ map neg_time (accepted h x)))"
      unfolding take_map [symmetric] k by (simp add: both_def MergeImport del: accepted.simps)
    ultimately show ?thesis
      using s by simp
  next
    case (ImportBulk es)
    define both where "both = h @ accepted h (ImportBulk es)"
    have t: "\<forall>e\<in>set both. timed e"
      using assms(3,4) by (auto simp: both_def ImportBulk simp del: accepted.simps)
    have k: "map neg_time (Array_sort by_timestamp_desc both) = sort (map neg_time both)"
      using t by (rule neg_time_Array_sort)
    have s: "newest_first (take 100 (Array_sort by_timestamp_desc both))"
      using t by (simp add: newest_first_take newest_first_Array_sort)
    have "apply_operation h x = take 100 (Array_sort by_timestamp_desc both)"
      by (simp only: ImportBulk apply_operation.simps importHistory_eq both_def)
    moreover have "map neg_time (take 100 (Array_sort by_timestamp_desc both))
                     = take 100 (sort (map neg_time h @ map neg_time (accepted h x)))"
      unfolding take_map [symmetric] k by (simp add: both_def ImportBulk del: accepted.simps)
    ultimately show ?thesis
      using s by simp
  qed
  from both show "map neg_time (apply_operation h x)
           = take 100 (sort (map neg_time h @ map neg_time (accepted h x)))" ..
  from both show "newest_first (apply_operation h x)" ..
qed

lemma run_keys:
  assumes "newest_first h" and "length h \<le> 100"
    and "\<forall>e\<in>set h. timed e" and "\<forall>e\<in>set (all_accepted h xs). timed e"
    and "adds_newest h xs"
  shows "map neg_time (run h xs)
           = take 100 (sort (map neg_time h @ map neg_time (all_accepted h xs)))
         \<and> newest_first (run h xs)"
  using assms
proof (induction xs arbitrary: h)
  case Nil
  then show ?case
    by (simp add: run_def sorted_sort_id sorted_neg_time)
next
  case (Cons x xs)
  let ?h = "apply_operation h x"
  have acc: "\<forall>e\<in>set (accepted h x). timed e"
    using Cons.prems(4) by simp
  have one: "adds_newest h [x]"
    using Cons.prems(5) by simp
  have keys: "map neg_time ?h = take 100 (sort (map neg_time h @ map neg_time (accepted h x)))"
    using Cons.prems(1,2,3) acc one by (rule step_keys(1))
  have sorted_h: "newest_first ?h"
    using Cons.prems(1,2,3) acc one by (rule step_keys(2))
  have len: "length ?h \<le> 100"
    using Cons.prems(2) by (rule length_apply_operation)
  have timed_h: "\<forall>e\<in>set ?h. timed e"
    using set_apply_operation [of h x] Cons.prems(3) acc by blast
  have rest: "\<forall>e\<in>set (all_accepted ?h xs). timed e"
    using Cons.prems(4) by simp
  have newest: "adds_newest ?h xs"
    using Cons.prems(5) by simp
  from Cons.IH [OF sorted_h len timed_h rest newest]
  have IH: "map neg_time (run ?h xs)
              = take 100 (sort (map neg_time ?h @ map neg_time (all_accepted ?h xs)))"
    and sorted_run: "newest_first (run ?h xs)"
    by simp_all
  have "map neg_time (run ?h xs)
          = take 100 (sort ((map neg_time h @ map neg_time (accepted h x))
                            @ map neg_time (all_accepted ?h xs)))"
    unfolding IH keys by (rule take_sort_absorb)
  with sorted_run show ?case
    by (simp add: run_def)
qed

text \<open>
  C4. The second half of the claim fails: after 100 adds with the timestamps 1 to 100 and one
  more add of a record with the timestamp 0, the store holds the record of timestamp 0 and
  has dropped the record of timestamp 1, although 101 distinct records were offered.
\<close>

theorem older_add_evicts_newer:
  "length (run [] hundred_then_older) = 100
   \<and> Add (example_response ''x'' 1) \<in> set hundred_then_older
   \<and> Add (example_response ''older'' 0) \<in> set hundred_then_older
   \<and> time_value (history_entry (example_response ''older'' 0))
       < time_value (history_entry (example_response ''x'' 1))
   \<and> history_entry (example_response ''older'' 0) \<in> set (run [] hundred_then_older)
   \<and> history_entry (example_response ''x'' 1) \<notin> set (run [] hundred_then_older)"
proof -
  have "Add (example_response ''x'' 1) \<in> set hundred_then_older"
    unfolding hundred_then_older_def set_append set_map
    by (intro UnI1 image_eqI [where x = 1]) simp_all
  moreover have "history_entry (example_response ''x'' 1) \<notin> set (run [] hundred_then_older)"
    by (auto simp: hundred_then_older_run history_entry_def example_response_def)
  moreover have "time_value (history_entry (example_response ''older'' 0))
       < time_value (history_entry (example_response ''x'' 1))"
    by (simp add: time_value_def history_entry_def example_response_def)
  ultimately show ?thesis
    by (simp add: hundred_then_older_run) (simp add: hundred_then_older_def)
qed

lemma time_value_neg_time: "map time_value h = map uminus (map neg_time h)"
  by (simp add: neg_time_def comp_def)

lemma neg_time_time_value: "map neg_time h = map uminus (map time_value h)"
  by (simp add: neg_time_def comp_def)

lemma all_accepted_adds: "all_accepted h (map Add rs) = map history_entry rs"
  by (induction rs arbitrary: h) simp_all

lemma adds_newest_in_order:
  assumes "sorted_wrt (\<lambda>a b. not_older (history_entry b) (history_entry a)) rs"
    and "\<forall>e\<in>set h. \<forall>r\<in>set rs. not_older (history_entry r) e"
  shows "adds_newest h (map Add rs)"
  using assms
proof (induction rs arbitrary: h)
  case Nil
  then show ?case by simp
next
  case (Cons r rs)
  have sub: "set (saveToHistory h r) \<subseteq> insert (history_entry r) (set h)"
    using set_apply_operation [of h "Add r"] by auto
  have "\<forall>e\<in>set (saveToHistory h r). \<forall>r'\<in>set rs. not_older (history_entry r') e"
  proof (intro ballI)
    fix e r'
    assume "e \<in> set (saveToHistory h r)" and r': "r' \<in> set rs"
    with sub have "e = history_entry r \<or> e \<in> set h" by auto
    then show "not_older (history_entry r') e"
      using Cons.prems r' by auto
  qed
  moreover have "sorted_wrt (\<lambda>a b. not_older (history_entry b) (history_entry a)) rs"
    using Cons.prems(1) by simp
  ultimately have "adds_newest (saveToHistory h r) (map Add rs)"
    by (intro Cons.IH)
  moreover have "list_all (not_older (history_entry r)) h"
    using Cons.prems(2) by (simp add: list_all_iff)
  ultimately show ?case by simp
qed

lemma hundred_one_in_order_facts:
  "list_all timed (all_accepted [] hundred_one_in_order)"
  "adds_newest [] hundred_one_in_order"
  "length (all_accepted [] hundred_one_in_order) = 101"
  "map time_value (run [] hundred_one_in_order) = rev (map int [2..<102])"
proof -
  define f where "f = (\<lambda>n. example_response (replicate n CHR ''x'') (int n))"
  have ops: "hundred_one_in_order = map Add (map f [1..<102])"
    by (simp add: hundred_one_in_order_def f_def)
  have tv: "time_value (history_entry (f n)) = int n" for n
    by (simp add: f_def time_value_def history_entry_def example_response_def)
  show "list_all timed (all_accepted [] hundred_one_in_order)"
    unfolding ops all_accepted_adds
    by (simp add: list_all_iff timed_def history_entry_def example_response_def f_def
        del: upt_Suc)
  have "sorted_wrt (\<lambda>a b. not_older (history_entry (f b)) (history_entry (f a))) [1..<102]"
    by (rule sorted_wrt_mono_rel [where P = "(<)"])
      (simp_all add: not_older_def history_entry_def example_response_def f_def
        del: upt_Suc)
  then show "adds_newest [] hundred_one_in_order"
    unfolding ops by (intro adds_newest_in_order) (simp_all add: sorted_wrt_map del: upt_Suc)
  show "length (all_accepted [] hundred_one_in_order) = 101"
    unfolding ops all_accepted_adds by simp
  have "[1..<102] = 1 # [2..<102]"
    by (simp add: upt_conv_Cons)
  then have "rev (map history_entry (map f [1..<102]))
               = rev (map (\<lambda>n. history_entry (f n)) [2..<102]) @ [history_entry (f 1)]"
    by (simp add: comp_def)
  moreover have "length (rev (map (\<lambda>n. history_entry (f n)) [2..<102])) = 100"
    by simp
  ultimately have "take 100 (rev (map history_entry (map f [1..<102])) @ [])
                     = rev (map (\<lambda>n. history_entry (f n)) [2..<102])"
    by simp
  moreover have "run [] (map Add (map f [1..<102]))
                   = take 100 (rev (map history_entry (map f [1..<102])) @ [])"
    by (rule run_adds) simp
  ultimately have "run [] hundred_one_in_order
                     = rev (map (\<lambda>n. history_entry (f n)) [2..<102])"
    unfolding ops by simp
  then show "map time_value (run [] hundred_one_in_order) = rev (map int [2..<102])"
    by (simp add: rev_map comp_def tv del: upt_Suc)
qed

text \<open>
  C4, amended. After any sequence of adds, merges and imports from the empty store the store
  holds at most 100 records, all of them records that were inserted. When every inserted
  record has a timestamp and every added record is at least as recent as the records in the
  store at that moment, the store is in non-increasing timestamp order and its timestamps
  are exactly the 100 most recent of all inserted records.
\<close>

theorem capacity_keeps_most_recent:
  "length (run [] xs) \<le> 100
   \<and> set (run [] xs) \<subseteq> set (all_accepted [] xs)
   \<and> (list_all timed (all_accepted [] xs) \<and> adds_newest [] xs
        \<longrightarrow> newest_first (run [] xs)
            \<and> map time_value (run [] xs)
                = take 100 (rev (sort (map time_value (all_accepted [] xs)))))"
proof (intro conjI impI)
  show "length (run [] xs) \<le> 100"
    by (rule length_run) simp
  show "set (run [] xs) \<subseteq> set (all_accepted [] xs)"
    using set_run [of "[]" xs] by simp
next
  assume hyp: "list_all timed (all_accepted [] xs) \<and> adds_newest [] xs"
  then have timed_all: "\<forall>e\<in>set (all_accepted [] xs). timed e"
    by (simp add: list_all_iff)
  have "newest_first []" by (simp add: newest_first_def)
  moreover have "length ([] :: entry list) \<le> 100" by simp
  moreover have "\<forall>e\<in>set ([] :: entry list). timed e" by simp
  ultimately have keys: "map neg_time (run [] xs)
           = take 100 (sort (map neg_time [] @ map neg_time (all_accepted [] xs)))
         \<and> newest_first (run [] xs)"
    using timed_all hyp by (intro run_keys) simp_all
  then show "newest_first (run [] xs)" ..
  from keys have "map neg_time (run [] xs)
                    = take 100 (sort (map uminus (map time_value (all_accepted [] xs))))"
    by (simp add: neg_time_time_value)
  then have "map time_value (run [] xs)
               = map uminus (take 100 (sort (map uminus (map time_value (all_accepted [] xs)))))"
    by (simp only: time_value_neg_time)
  also have "\<dots> = take 100 (rev (sort (map time_value (all_accepted [] xs))))"
    by (simp only: rev_sort_uminus take_map)
  finally show "map time_value (run [] xs)
                = take 100 (rev (sort (map time_value (all_accepted [] xs))))" .
qed

theorem capacity_keeps_most_recent_witness:
  "list_all timed
     (all_accepted [] [Add (example_response ''a'' 10), Add (example_response ''b'' 20),
                       MergeImport [example_response ''a'' 10, example_response ''c'' 5]])
   \<and> adds_newest [] [Add (example_response ''a'' 10), Add (example_response ''b'' 20),
                      MergeImport [example_response ''a'' 10, example_response ''c'' 5]]
   \<and> map time_value
        (all_accepted [] [Add (example_response ''a'' 10), Add (example_response ''b'' 20),
                          MergeImport [example_response ''a'' 10, example_response ''c'' 5]])
      = [10, 20, 5]
   \<and> map time_value
        (run [] [Add (example_response ''a'' 10), Add (example_response ''b'' 20),
                 MergeImport [example_response ''a'' 10, example_response ''c'' 5]])
      = [20, 10, 5]
   \<and> map time_value
        (run [] [Add (example_response ''a'' 10), Add (example_response ''b'' 20),
                 MergeImport [example_response ''a'' 10, example_response ''c'' 5]])
      = take 100 (rev (sort (map time_value
          (all_accepted [] [Add (example_response ''a'' 10), Add (example_response ''b'' 20),
                            MergeImport [example_response ''a'' 10,
                                         example_response ''c'' 5]]))))
   \<and> list_all timed (all_accepted [] hundred_one_in_order)
   \<and> adds_newest [] hundred_one_in_order
   \<and> length (all_accepted [] hundred_one_in_order) = 101
   \<and> map time_value (run [] hundred_one_in_order) = rev (map int [2..<102])
   \<and> map time_value (run [] hundred_one_in_order)
      = take 100 (rev (sort (map time_value (all_accepted [] hundred_one_in_order))))"
proof -
  let ?xs = "[Add (example_response ''a'' 10), Add (example_response ''b'' 20),
              MergeImport [example_response ''a'' 10, example_response ''c'' 5]]"
  have a: "list_all timed (all_accepted [] ?xs)"
    by code_simp
  have b: "adds_newest [] ?xs"
    by code_simp
  have c: "map time_value (all_accepted [] ?xs) = [10, 20, 5]"
    by code_simp
  have d: "map time_value (run [] ?xs) = [20, 10, 5]"
    by code_simp
  from capacity_keeps_most_recent [of ?xs] a b
  have e: "map time_value (run [] ?xs)
             = take 100 (rev (sort (map time_value (all_accepted [] ?xs))))"
    by blast
  note f = hundred_one_in_order_facts
  from capacity_keeps_most_recent [of hundred_one_in_order] f(1,2)
  have g: "map time_value (run [] hundred_one_in_order)
             = take 100 (rev (sort (map time_value (all_accepted [] hundred_one_in_order))))"
    by blast
  show ?thesis
    by (intro conjI a b c d e f g)
qed

subsection \<open>Bulk import\<close>

text \<open>
  C6. The claim fails: a record without a request is not skipped. A batch of that record and
  nine valid ones is stored whole, ten records, and the alert says 10.
\<close>

theorem import_accepts_record_without_request:
  "importHistory [] (record_without_request # nine_records)
     = (record_without_request # rev nine_records, 10)
   \<and> length (fst (importHistory [] (record_without_request # nine_records))) = 10
   \<and> importHistory_slot ''metric'' None
       (Encoded (JArray (record_without_request # nine_records)))
     = (Some (Encoded (JArray (record_without_request # rev nine_records))), Imported 10)"
  by code_simp

text \<open>
  C6, amended. Each record of an imported array is treated on its own: it is skipped when
  its id is missing or empty, or is the id of a record already in the store, and is inserted
  otherwise, whether or not it has a timestamp or a request; no record stops the batch. While
  the capacity is not exceeded the store afterwards holds exactly the previous records and
  the inserted ones.
\<close>

theorem import_skips_by_id_only:
  "fst (importHistory h es)
     = take 100 (Array_sort by_timestamp_desc
         (h @ filter (\<lambda>e. truthy_id (entry_id e) \<and> entry_id e \<notin> set (map entry_id h)) es))
   \<and> (length h
        + length (filter (\<lambda>e. truthy_id (entry_id e) \<and> entry_id e \<notin> set (map entry_id h)) es)
        \<le> 100
       \<longrightarrow> mset (fst (importHistory h es))
           = mset h
             + mset (filter (\<lambda>e. truthy_id (entry_id e)
                                  \<and> entry_id e \<notin> set (map entry_id h)) es))"
proof (intro conjI impI)
  show first: "fst (importHistory h es)
     = take 100 (Array_sort by_timestamp_desc
         (h @ filter (\<lambda>e. truthy_id (entry_id e) \<and> entry_id e \<notin> set (map entry_id h)) es))"
    by (simp add: importHistory_eq)
  assume "length h
        + length (filter (\<lambda>e. truthy_id (entry_id e) \<and> entry_id e \<notin> set (map entry_id h)) es)
        \<le> 100"
  then have "fst (importHistory h es)
     = Array_sort by_timestamp_desc
         (h @ filter (\<lambda>e. truthy_id (entry_id e) \<and> entry_id e \<notin> set (map entry_id h)) es)"
    unfolding first by (simp add: length_Array_sort)
  then show "mset (fst (importHistory h es))
           = mset h
             + mset (filter (\<lambda>e. truthy_id (entry_id e)
                                  \<and> entry_id e \<notin> set (map entry_id h)) es)"
    by (simp only: mset_Array_sort mset_append)
qed

theorem import_skips_by_id_only_witness:
  "length ([] :: entry list)
     + length (filter (\<lambda>e. truthy_id (entry_id e)
                            \<and> entry_id e \<notin> set (map entry_id ([] :: entry list)))
         (record_without_id # nine_records))
     = 9
   \<and> mset (fst (importHistory [] (record_without_id # nine_records))) = mset nine_records
   \<and> length (fst (importHistory [] (record_without_id # nine_records))) = 9"
proof -
  let ?es = "record_without_id # nine_records"
  have kept: "filter (\<lambda>e. truthy_id (entry_id e)
                          \<and> entry_id e \<notin> set (map entry_id ([] :: entry list))) ?es
                = nine_records"
    by code_simp
  have a: "length ([] :: entry list)
             + length (filter (\<lambda>e. truthy_id (entry_id e)
                                    \<and> entry_id e \<notin> set (map entry_id ([] :: entry list))) ?es)
           = 9"
    unfolding kept by (simp add: nine_records_def)
  then have le: "length ([] :: entry list)
             + length (filter (\<lambda>e. truthy_id (entry_id e)
                                    \<and> entry_id e \<notin> set (map entry_id ([] :: entry list))) ?es)
           \<le> 100"
    by simp
  have "mset (fst (importHistory [] ?es))
          = mset ([] :: entry list)
            + mset (filter (\<lambda>e. truthy_id (entry_id e)
                                \<and> entry_id e \<notin> set (map entry_id ([] :: entry list))) ?es)"
    by (rule import_skips_by_id_only [of "[]" ?es, THEN conjunct2, THEN mp, OF le])
  then have b: "mset (fst (importHistory [] ?es)) = mset nine_records"
    unfolding kept by simp
  then have "size (mset (fst (importHistory [] ?es))) = size (mset nine_records)"
    by simp
  then have c: "length (fst (importHistory [] ?es)) = 9"
    by (simp add: nine_records_def)
  show ?thesis
    by (intro conjI a b c)
qed

subsection \<open>Replay\<close>

text \<open>
  C1. The code at the failing input: with the imperial system active, replaying a record
  whose stored radius is 3000 m restores the location (51, 7), but writes 3000 into the
  radius control, which holds miles: the circle drawn has a radius of 4828020 m. The
  conversion that the claim asks for gives 1.9, as the history list itself displays.
\<close>

theorem replay_radius_not_converted:
  "map_sum id (\<lambda>p. (selectedLat p, selectedLng p, radiusInput p, radiusCircle p))
     (loadHistoryEntry
        \<lparr>units = ''imperial'', selectedLat = None, selectedLng = None,
         selectedType = ''attractor'', currentResult = None, radiusInput = Some (19 / 10),
         modeSelect = ''standard'', centerMarker = None, radiusCircle = None,
         mapView = ((40, - 74), 13), resultMarkers = [], activeTab = ''history''\<rparr>
        [\<lparr>entry_id = Some ''a1'', timestamp = Some 1700000000000,
          request = Some \<lparr>lat = 51, lng = 7, radius = 3000, mode = Some ''standard'',
                          backend = ''pseudo''\<rparr>,
          winners = [(''attractor'',
                      \<lparr>coords_lat = 51001 / 1000, coords_lng = 7002 / 1000,
                       z_score = Some 4\<rparr>)]\<rparr>]
        0)
   = Inr (Some 51, Some 7, Some 3000, Some ((51, 7), 4828020))
   \<and> map_option (\<lambda>c. fromCanonical c 3000) (UNIT_CONVERSIONS (unitType ''imperial''))
     = Some (19 / 10)
   \<and> updateHistoryDisplay ''imperial''
        [\<lparr>entry_id = Some ''a1'', timestamp = Some 1700000000000,
          request = Some \<lparr>lat = 51, lng = 7, radius = 3000, mode = Some ''standard'',
                          backend = ''pseudo''\<rparr>,
          winners = [(''attractor'',
                      \<lparr>coords_lat = 51001 / 1000, coords_lng = 7002 / 1000,
                       z_score = Some 4\<rparr>)]\<rparr>]
     = Inr [((51001 / 1000, 7002 / 1000), ''Standard'', (19 / 10, '' mi''), Some ''a1'')]"
  by code_simp

text \<open>
  In general the replay restores the stored location and copies the stored radius, in
  metres, into the radius control, whatever the unit system is.
\<close>

lemma loadHistoryEntry_restores:
  assumes "index < length history" and "request (history ! index) = Some req"
  shows "\<exists>p'. loadHistoryEntry p history index = Inr p'
           \<and> selectedLat p' = Some (lat req) \<and> selectedLng p' = Some (lng req)
           \<and> radiusInput p' = Some (radius req) \<and> units p' = units p"
  using assms
  by (simp add: loadHistoryEntry_def Let_def displayResults_def setMapCenter_def
      updateRadiusCircle_def updateLocationDisplay_def split: option.splits)

subsection \<open>The persisted slot\<close>

text \<open>
  C7. The claim fails: an unreadable blob does not load as the empty store. The load throws
  a \<^verbatim>\<open>SyntaxError\<close>, and adding a record then fails and leaves the blob in place, where
  on an absent slot it stores the one record.
\<close>

theorem unreadable_history_counterexample:
  "readHistory (Some Unreadable) = Inl SyntaxError
   \<and> readHistory (Some Unreadable) \<noteq> readHistory None
   \<and> saveToHistory_slot ''metric'' (Some Unreadable)
        \<lparr>resp_id = Some ''a1'', resp_request = None, resp_winners = [], circles = [],
         metadata_timestamp = Some 10\<rparr>
       = (Some Unreadable, Some SyntaxError)
   \<and> saveToHistory_slot ''metric'' None
        \<lparr>resp_id = Some ''a1'', resp_request = None, resp_winners = [], circles = [],
         metadata_timestamp = Some 10\<rparr>
       = (Some (Encoded (JArray [\<lparr>entry_id = Some ''a1'', timestamp = Some 10,
                                  request = None, winners = []\<rparr>])), None)"
  by (simp add: readHistory_def JSON_parse_def saveToHistory_slot_def saveToHistory_def
      history_entry_def JSON_stringify_def thrown_def first_winner_def)

text \<open>
  C7, amended. An absent slot and the empty string load as the empty store. A text that
  \<^verbatim>\<open>JSON.parse\<close> rejects makes every operation that loads the store fail with the
  \<^verbatim>\<open>SyntaxError\<close>; nothing is written, and the unreadable text stays in the slot.
\<close>

theorem unreadable_history_propagates:
  "readHistory None = Inr [] \<and> readHistory (Some EmptyText) = Inr []
   \<and> readHistory (Some Unreadable) = Inl SyntaxError
   \<and> saveToHistory_slot u (Some Unreadable) r = (Some Unreadable, Some SyntaxError)
   \<and> deleteHistoryEntry_slot u (Some Unreadable) i = (Some Unreadable, Some SyntaxError)
   \<and> importHistory_slot u (Some Unreadable) (Encoded (JArray es))
       = (Some Unreadable, ImportFailed SyntaxError)"
  by (simp add: readHistory_def JSON_parse_def saveToHistory_slot_def
      deleteHistoryEntry_slot_def importHistory_slot_def)

text \<open>
  C10. When the imported file is not valid JSON, or its parsed value is not an array, the
  import leaves the history slot as it was and reports the failure.
\<close>

theorem import_container_failure_keeps_store:
  assumes "container_failure file_text"
  shows "fst (importHistory_slot u s file_text) = s
         \<and> (\<exists>e. snd (importHistory_slot u s file_text) = ImportFailed e)"
  using assms
  by (auto simp: container_failure_def importHistory_slot_def split: sum.splits json.splits)

theorem import_container_failure_keeps_store_witness:
  "container_failure (Encoded JOther) \<and> container_failure Unreadable
   \<and> importHistory_slot ''metric'' (Some (Encoded (JArray [\<lparr>entry_id = Some ''a1'', timestamp = Some 10,
                                  request = None, winners = []\<rparr>]))) (Encoded JOther)
     = (Some (Encoded (JArray [\<lparr>entry_id = Some ''a1'', timestamp = Some 10,
                                  request = None, winners = []\<rparr>])), ImportFailed InvalidFormat)"
proof -
  have a: "container_failure (Encoded JOther)" 
    by (simp add: container_failure_def JSON_parse_def)
  have b: "container_failure Unreadable"
    by (simp add: container_failure_def JSON_parse_def)
  have c: "snd (importHistory_slot u s (Encoded JOther)) = ImportFailed InvalidFormat" for u s
    by (simp add: importHistory_slot_def JSON_parse_def)
  from import_container_failure_keeps_store [OF a] a b c show ?thesis
    by (simp add: prod_eq_iff)
qed

end
